theory Spec2Isabelle
  imports Complex_Main "HOL-Library.Word"
begin

section \<open>Data model of the render queue builder\<close>

text \<open>
  The development embeds \<^verbatim>\<open>RenderQueueBuilder::build\<close> and its helpers
  (\<^verbatim>\<open>encode_light_pass_commands\<close>, \<^verbatim>\<open>add_pass\<close>,
  \<^verbatim>\<open>add_post_processing_passes\<close>). Pointers of the source become references
  that name the object pointed to; the objects live in an explicit store (\<open>world\<close>),
  which every operation takes and returns.
\<close>

type_synonym u32 = "32 word"

text \<open>\<^verbatim>\<open>Scene *\<close>: a scene of the caller, or the scene held in slot \<open>n\<close> of the
  builder's \<^verbatim>\<open>pass_data_\<close>.\<close>
datatype sref = CallerScene nat | PassDataScene nat

text \<open>\<^verbatim>\<open>Camera *\<close>: a camera of the caller, the camera in slot \<open>n\<close> of
  \<^verbatim>\<open>pass_data_\<close>, or the shadow camera of a directional light.\<close>
datatype cref = CallerCamera nat | PassDataCamera nat | ShadowCamera nat

text \<open>\<^verbatim>\<open>RenderTarget *\<close>: a target the caller already had, or the target returned by
  the \<open>n\<close>-th call of the render target callbacks.\<close>
datatype target = CallerTarget nat | ProviderTarget nat

text \<open>\<^verbatim>\<open>Light *\<close>: the ambient light of a scene's lighting rig, a point light or a
  directional light.\<close>
datatype light = AmbientLight sref | PointLight nat | DirectionalLight nat

text \<open>\<^verbatim>\<open>RenderEntity *\<close>: an entity of the caller, or the \<^verbatim>\<open>SingleEntity\<close> the
  builder created in a scene for the render graph with the given index.\<close>
datatype entity = CallerEntity nat | SingleEntity sref nat

datatype material = Material nat

datatype LightType = AMBIENT | POINT | DIRECTIONAL

datatype RenderCommandType = PASS_START | DRAW | PASS_END | PRESENT

datatype CameraType = PERSPECTIVE | ORTHOGRAPHIC

record Camera =
  camera_type :: CameraType
  camera_width :: u32
  camera_height :: u32

subsection \<open>Render graphs\<close>

datatype ArithmeticOperator = ADD | DOT

datatype ConditionalOperator = GREATER

text \<open>\<open>TextureNode t\<close> is the texture node over \<^verbatim>\<open>t->colour_texture()\<close>.\<close>
datatype node =
    TextureNode target
  | ValueColour real real real real
  | ValueFloat real
  | ArithmeticNode node node ArithmeticOperator
  | ConditionalNode node node node node ConditionalOperator
  | BlurNode node

text \<open>The render node of a graph. \<open>RenderNode c\<close> is the default render node with colour input
  \<open>c\<close>; \<open>CallerGraph\<close> is a graph the caller built.\<close>
datatype render_node =
    RenderNode "node option"
  | AmbientOcclusionNode node node node nat
  | ColourAdjustNode node nat
  | AntiAliasingNode node
  | SkyBoxNode nat
  | CallerGraph nat

subsection \<open>Passes, commands, scenes\<close>

record BloomDescription =
  threshold :: real
  iterations :: u32

record PostProcessingDescription =
  bloom :: "BloomDescription option"
  colour_adjust :: "nat option"
  anti_aliasing :: bool
  ambient_occlusion :: "nat option"

record RenderPass =
  scene :: sref
  camera :: cref
  colour_target :: "target option"
  normal_target :: "target option"
  position_target :: "target option"
  depth_only :: bool
  sky_box :: "nat option"
  clear_colour :: bool
  clear_depth :: bool
  post_processing_description :: PostProcessingDescription

text \<open>A command refers to its pass by the position of the pass in the final pass list (the
  source stores the address of that element).\<close>
record RenderCommand =
  rc_type :: RenderCommandType
  render_pass :: "nat option"
  material :: "material option"
  render_entity :: "entity option"
  light :: "light option"
  shadow_map :: "target option"

text \<open>A scene: the render graphs it owns, its \<^verbatim>\<open>(render_graph, entity)\<close> pairs in
  iteration order (the graph given by its index), and the light collections of its lighting
  rig. The rig's single ambient light is \<open>AmbientLight\<close> of the scene's reference.\<close>
record Scene =
  render_graphs :: "render_node list"
  entities :: "(nat \<times> entity) list"
  point_lights :: "nat list"
  directional_lights :: "nat list"

text \<open>One request to the render target callbacks and one to the material callback.\<close>
datatype target_request = Plain u32 u32 | Hybrid "target option" target

record MaterialRequest =
  mr_scene :: sref
  mr_render_graph :: nat
  mr_entity :: entity
  mr_target :: "target option"
  mr_light_type :: LightType
  mr_normal :: bool
  mr_position :: bool

text \<open>The store: the builder's members (\<open>width\<close>, \<open>height\<close>, the size of
  \<^verbatim>\<open>pass_data_\<close>, whose slots are the \<open>PassDataScene\<close> and \<open>PassDataCamera\<close>
  entries of \<open>scenes\<close> and \<open>cameras\<close>), the caller's objects, and the logs of the two
  external collaborators.\<close>
record world =
  width :: u32
  height :: u32
  pass_data_size :: nat
  scenes :: "sref \<Rightarrow> Scene"
  cameras :: "cref \<Rightarrow> Camera"
  casts_shadows :: "nat \<Rightarrow> bool"
  receive_shadow :: "entity \<Rightarrow> bool"
  render_targets :: "target_request list"
  materials :: "MaterialRequest list"

type_synonym shadow_maps = "nat \<rightharpoonup> target"

section \<open>External collaborators\<close>

text \<open>Modelled from the spec: the Render Target Provider and the Material Factory are callbacks
  whose code is outside the repository's sources. Each call is logged and returns a new handle,
  the position of the request in the log.\<close>

definition create_render_target :: "u32 \<Rightarrow> u32 \<Rightarrow> world \<Rightarrow> target \<times> world" where
  "create_render_target w h s =
     (ProviderTarget (length (render_targets s)),
      s\<lparr>render_targets := render_targets s @ [Plain w h]\<rparr>)"

definition create_hybrid_render_target :: "target option \<Rightarrow> target \<Rightarrow> world \<Rightarrow> target \<times> world" where
  "create_hybrid_render_target colour_source depth_source s =
     (ProviderTarget (length (render_targets s)),
      s\<lparr>render_targets := render_targets s @ [Hybrid colour_source depth_source]\<rparr>)"

definition create_material :: "MaterialRequest \<Rightarrow> world \<Rightarrow> material \<times> world" where
  "create_material req s =
     (Material (length (materials s)), s\<lparr>materials := materials s @ [req]\<rparr>)"

text \<open>Modelled from the spec: the declarations of \<^verbatim>\<open>RenderPass\<close>,
  \<^verbatim>\<open>PostProcessingDescription\<close>, \<^verbatim>\<open>RenderCommand\<close> and \<^verbatim>\<open>Scene\<close> are
  not among the sources. A value-initialised description has no effect configured, a pass built
  from a scene and a camera alone has no target and no sky box, is not depth-only and clears
  colour and depth, a default command refers to nothing, and a new scene is empty.\<close>

definition empty_description :: PostProcessingDescription where
  "empty_description =
     \<lparr>bloom = None, colour_adjust = None, anti_aliasing = False, ambient_occlusion = None\<rparr>"

definition new_pass :: "sref \<Rightarrow> cref \<Rightarrow> RenderPass" where
  "new_pass sc cam =
     \<lparr>scene = sc, camera = cam, colour_target = None, normal_target = None,
      position_target = None, depth_only = False, sky_box = None, clear_colour = True,
      clear_depth = True, post_processing_description = empty_description\<rparr>"

definition default_command :: RenderCommand where
  "default_command =
     \<lparr>rc_type = PASS_START, render_pass = None, material = None, render_entity = None,
      light = None, shadow_map = None\<rparr>"

definition empty_scene :: Scene where
  "empty_scene = \<lparr>render_graphs = [], entities = [], point_lights = [], directional_lights = []\<rparr>"

text \<open>Modelled from the spec: the methods of \<^verbatim>\<open>Scene\<close> are not among the sources.
  \<^verbatim>\<open>scene->create_render_graph()\<close>, taken together with the construction of the graph's
  render node that follows it, gives the scene a new render graph, and
  \<^verbatim>\<open>scene->create_entity<SingleEntity>(rg, ...)\<close> gives it a new entity bound to that
  graph; both go to the end of the scene's collections.\<close>

definition create_render_graph :: "render_node \<Rightarrow> Scene \<Rightarrow> nat \<times> Scene" where
  "create_render_graph rn sc =
     (length (render_graphs sc), sc\<lparr>render_graphs := render_graphs sc @ [rn]\<rparr>)"

definition create_entity :: "sref \<Rightarrow> nat \<Rightarrow> Scene \<Rightarrow> entity \<times> Scene" where
  "create_entity r rg sc =
     (SingleEntity r rg, sc\<lparr>entities := entities sc @ [(rg, SingleEntity r rg)]\<rparr>)"

section \<open>The single-stage helper\<close>

text \<open>\<^verbatim>\<open>render_passes.back().colour_target = v\<close>. On an empty deque \<^verbatim>\<open>back()\<close> is
  undefined in the source; the model then leaves the list as it is. \<open>build\<close> never reaches
  that case: every call of \<open>add_pass\<close> follows an \<^verbatim>\<open>emplace_back\<close>.\<close>

definition map_back :: "('a \<Rightarrow> 'a) \<Rightarrow> 'a list \<Rightarrow> 'a list" where
  "map_back f xs = (case rev xs of [] \<Rightarrow> [] | x # r \<Rightarrow> rev r @ [f x])"

text \<open>\<^verbatim>\<open>RenderQueueBuilder::add_pass\<close>. The callback is given as the function from the new
  target to the render node it leaves in the new graph.\<close>

definition add_pass ::
  "(target \<Rightarrow> render_node) \<Rightarrow> RenderPass list \<Rightarrow> world \<Rightarrow> target \<times> RenderPass list \<times> world" where
  "add_pass create_render_graph_callback render_passes s =
     (let n = pass_data_size s;
          s1 = s\<lparr>pass_data_size := n + 1,
                 scenes := (scenes s)(PassDataScene n := empty_scene),
                 cameras := (cameras s)(PassDataCamera n :=
                   \<lparr>camera_type = ORTHOGRAPHIC, camera_width = width s, camera_height = height s\<rparr>)\<rparr>;
          (target, s2) = create_render_target (width s1) (height s1) s1;
          (rg, sc1) = create_render_graph (create_render_graph_callback target)
                        (scenes s2 (PassDataScene n));
          (e, sc2) = create_entity (PassDataScene n) rg sc1;
          s3 = s2\<lparr>scenes := (scenes s2)(PassDataScene n := sc2)\<rparr>
      in (target,
          map_back (\<lambda>p. p\<lparr>colour_target := Some target\<rparr>) render_passes
            @ [new_pass (PassDataScene n) (PassDataCamera n)],
          s3))"

section \<open>Shadow and ambient occlusion pre-passes\<close>

text \<open>The inner loop of \<open>build\<close> over the directional lights of a pass's scene.\<close>

fun add_shadow_passes ::
  "RenderPass \<Rightarrow> nat list \<Rightarrow> RenderPass list \<Rightarrow> shadow_maps \<Rightarrow> world
     \<Rightarrow> RenderPass list \<times> shadow_maps \<times> world" where
  "add_shadow_passes pass [] pre_process_passes sm s = (pre_process_passes, sm, s)"
| "add_shadow_passes pass (l # ls) pre_process_passes sm s =
     (if casts_shadows s l then
        (let (rt, s1) = create_render_target 1024 1024 s;
             shadow_pass = pass\<lparr>post_processing_description := empty_description,
                                camera := ShadowCamera l,
                                colour_target := Some rt,
                                normal_target := None,
                                position_target := None,
                                depth_only := True,
                                clear_colour := True,
                                clear_depth := True\<rparr>
         in add_shadow_passes pass ls (pre_process_passes @ [shadow_pass]) (sm(l \<mapsto> rt)) s1)
      else add_shadow_passes pass ls pre_process_passes sm s)"

text \<open>The render node the SSAO callback builds: \<^verbatim>\<open>prev\<close> is the data pass, whose normal and
  position targets are the two targets just allocated.\<close>

definition ssao_graph :: "target \<Rightarrow> target \<Rightarrow> nat \<Rightarrow> target \<Rightarrow> render_node" where
  "ssao_graph nt pt ssao tgt =
     AmbientOcclusionNode (TextureNode tgt) (TextureNode nt) (TextureNode pt) ssao"

text \<open>The \<^verbatim>\<open>if (ssao)\<close> block of \<open>build\<close>: returns the pass as the block leaves it.\<close>

definition add_ambient_occlusion_passes ::
  "RenderPass \<Rightarrow> RenderPass list \<Rightarrow> world \<Rightarrow> RenderPass \<times> RenderPass list \<times> world" where
  "add_ambient_occlusion_passes pass pre_process_passes s =
     (case ambient_occlusion (post_processing_description pass) of
        None \<Rightarrow> (pass, pre_process_passes, s)
      | Some ssao \<Rightarrow>
          (let (nt, s1) = create_render_target (width s) (height s) s;
               (pt, s2) = create_render_target (width s1) (height s1) s1;
               ao_data_pass = pass\<lparr>post_processing_description := empty_description,
                                   colour_target := None,
                                   normal_target := Some nt,
                                   position_target := Some pt,
                                   depth_only := True,
                                   clear_colour := True\<rparr>;
               pre1 = pre_process_passes @ [ao_data_pass];
               prev_camera = cameras s2 (camera ao_data_pass);
               (ao_target, pre2, s3) = add_pass (ssao_graph nt pt ssao) pre1 s2;
               s4 = s3\<lparr>cameras := (cameras s3)(PassDataCamera (pass_data_size s3 - 1) := prev_camera)\<rparr>;
               pre3 = map_back (\<lambda>prev. prev\<lparr>colour_target := colour_target pass\<rparr>) pre2;
               (hybrid, s5) = create_hybrid_render_target (colour_target pass) ao_target s4
           in (pass\<lparr>colour_target := Some hybrid, clear_colour := False, clear_depth := False\<rparr>,
               pre3, s5)))"

text \<open>The body of the first loop of \<open>build\<close>, and the loop. The loop returns the initial
  passes as it leaves them together with the pre-process passes and the shadow map table.\<close>

definition inject_pass ::
  "RenderPass \<Rightarrow> RenderPass list \<Rightarrow> shadow_maps \<Rightarrow> world
     \<Rightarrow> RenderPass \<times> RenderPass list \<times> shadow_maps \<times> world" where
  "inject_pass pass pre_process_passes sm s =
     (let (pre1, sm1, s1) =
            add_shadow_passes pass (directional_lights (scenes s (scene pass))) pre_process_passes sm s;
          (pass', pre2, s2) = add_ambient_occlusion_passes pass pre1 s1
      in (pass', pre2, sm1, s2))"

fun inject ::
  "RenderPass list \<Rightarrow> RenderPass list \<Rightarrow> shadow_maps \<Rightarrow> world
     \<Rightarrow> RenderPass list \<times> RenderPass list \<times> shadow_maps \<times> world" where
  "inject [] pre_process_passes sm s = ([], pre_process_passes, sm, s)"
| "inject (pass # passes) pre_process_passes sm s =
     (let (pass', pre1, sm1, s1) = inject_pass pass pre_process_passes sm s;
          (passes', pre2, sm2, s2) = inject passes pre1 sm1 s1
      in (pass' # passes', pre2, sm2, s2))"

section \<open>Post-processing expansion\<close>

definition pass_through_graph :: "target \<Rightarrow> render_node" where
  "pass_through_graph tgt = RenderNode (Some (TextureNode tgt))"

definition threshold_graph :: "BloomDescription \<Rightarrow> target \<Rightarrow> render_node" where
  "threshold_graph b tgt =
     RenderNode (Some (ConditionalNode
       (ArithmeticNode (TextureNode tgt) (ValueColour 0.2126 0.7152 0.0722 0.0) DOT)
       (ValueFloat (threshold b))
       (TextureNode tgt)
       (ValueColour 0.0 0.0 0.0 1.0)
       GREATER))"

definition blur_graph :: "target \<Rightarrow> render_node" where
  "blur_graph tgt = RenderNode (Some (BlurNode (TextureNode tgt)))"

definition composite_graph :: "target \<Rightarrow> target \<Rightarrow> render_node" where
  "composite_graph null_target tgt =
     RenderNode (Some (ArithmeticNode (TextureNode null_target) (TextureNode tgt) ADD))"

definition colour_adjust_graph :: "nat \<Rightarrow> target \<Rightarrow> render_node" where
  "colour_adjust_graph params tgt = ColourAdjustNode (TextureNode tgt) params"

definition anti_aliasing_graph :: "target \<Rightarrow> render_node" where
  "anti_aliasing_graph tgt = AntiAliasingNode (TextureNode tgt)"

text \<open>\<^verbatim>\<open>for (auto i = 0u; i < bloom->iterations; ++i)\<close>, given the number of iterations
  left.\<close>

fun add_blur_passes :: "nat \<Rightarrow> RenderPass list \<Rightarrow> world \<Rightarrow> RenderPass list \<times> world" where
  "add_blur_passes 0 render_passes s = (render_passes, s)"
| "add_blur_passes (Suc k) render_passes s =
     (let (tgt, render_passes1, s1) = add_pass blur_graph render_passes s
      in add_blur_passes k render_passes1 s1)"

definition add_bloom_passes :: "BloomDescription \<Rightarrow> RenderPass list \<Rightarrow> world \<Rightarrow> RenderPass list \<times> world" where
  "add_bloom_passes b render_passes s =
     (let (null_target, rp1, s1) = add_pass pass_through_graph render_passes s;
          (t2, rp2, s2) = add_pass (threshold_graph b) rp1 s1;
          (rp3, s3) = add_blur_passes (unat (iterations b)) rp2 s2;
          (t4, rp4, s4) = add_pass (composite_graph null_target) rp3 s3
      in (rp4, s4))"

text \<open>The body of the loop of \<^verbatim>\<open>add_post_processing_passes\<close>, and the loop.\<close>

definition expand_pass :: "RenderPass \<Rightarrow> RenderPass list \<Rightarrow> world \<Rightarrow> RenderPass list \<times> world" where
  "expand_pass pass render_passes s =
     (let rp0 = render_passes @ [pass];
          input_target = colour_target pass;
          description = post_processing_description pass;
          (rp1, s1) = (case bloom description of
                         None \<Rightarrow> (rp0, s)
                       | Some b \<Rightarrow> add_bloom_passes b rp0 s);
          (rp2, s2) = (case colour_adjust description of
                         None \<Rightarrow> (rp1, s1)
                       | Some ca \<Rightarrow> (let (t, r, s') = add_pass (colour_adjust_graph ca) rp1 s1 in (r, s')));
          (rp3, s3) = (if anti_aliasing description
                       then (let (t, r, s') = add_pass anti_aliasing_graph rp2 s2 in (r, s'))
                       else (rp2, s2))
      in (map_back (\<lambda>p. p\<lparr>colour_target := input_target\<rparr>) rp3, s3))"

fun add_post_processing_passes ::
  "RenderPass list \<Rightarrow> RenderPass list \<Rightarrow> world \<Rightarrow> RenderPass list \<times> world" where
  "add_post_processing_passes [] render_passes s = (render_passes, s)"
| "add_post_processing_passes (pass # passes) render_passes s =
     (let (render_passes1, s1) = expand_pass pass render_passes s
      in add_post_processing_passes passes render_passes1 s1)"

section \<open>Command encoding\<close>

text \<open>The two inner loops of \<^verbatim>\<open>encode_light_pass_commands\<close>: the command object is
  mutated and a copy is pushed for each light. Each function returns the commands pushed and
  the command object as the loop leaves it.\<close>

fun point_light_commands :: "nat list \<Rightarrow> RenderCommand \<Rightarrow> RenderCommand list \<times> RenderCommand" where
  "point_light_commands [] cmd = ([], cmd)"
| "point_light_commands (l # ls) cmd =
     (let cmd1 = cmd\<lparr>rc_type := DRAW, light := Some (PointLight l)\<rparr>;
          (out, cmd2) = point_light_commands ls cmd1
      in (cmd1 # out, cmd2))"

fun directional_light_commands ::
  "shadow_maps \<Rightarrow> bool \<Rightarrow> nat list \<Rightarrow> RenderCommand \<Rightarrow> RenderCommand list \<times> RenderCommand" where
  "directional_light_commands sm receives [] cmd = ([], cmd)"
| "directional_light_commands sm receives (l # ls) cmd =
     (let cmd1 = cmd\<lparr>rc_type := DRAW, light := Some (DirectionalLight l)\<rparr>;
          cmd2 = (if receives
                  then cmd1\<lparr>shadow_map := (case sm l of None \<Rightarrow> None | Some t \<Rightarrow> Some t)\<rparr>
                  else cmd1);
          (out, cmd3) = directional_light_commands sm receives ls cmd2
      in (cmd2 # out, cmd3))"

text \<open>The outer loop of \<^verbatim>\<open>encode_light_pass_commands\<close> over the scene's entities.
  \<open>pass_colour_target\<close> is \<^verbatim>\<open>cmd.render_pass()->colour_target\<close>: the command object
  points to the pass being encoded.\<close>

fun encode_entities ::
  "sref \<Rightarrow> LightType \<Rightarrow> bool \<Rightarrow> bool \<Rightarrow> target option \<Rightarrow> shadow_maps \<Rightarrow> (nat \<times> entity) list
     \<Rightarrow> RenderCommand \<Rightarrow> world \<Rightarrow> RenderCommand list \<times> RenderCommand \<times> world" where
  "encode_entities sc light_type has_normal_target has_position_target pass_colour_target sm
     [] cmd s = ([], cmd, s)"
| "encode_entities sc light_type has_normal_target has_position_target pass_colour_target sm
     ((render_graph, e) # es) cmd s =
     (let (m, s1) = create_material
                      \<lparr>mr_scene = sc, mr_render_graph = render_graph, mr_entity = e,
                       mr_target = pass_colour_target, mr_light_type = light_type,
                       mr_normal = (has_normal_target \<and> light_type = AMBIENT),
                       mr_position = (has_position_target \<and> light_type = AMBIENT)\<rparr> s;
          cmd1 = cmd\<lparr>material := Some m, render_entity := Some e\<rparr>;
          (out, cmd2) =
            (case light_type of
               AMBIENT \<Rightarrow>
                 (let c = cmd1\<lparr>rc_type := DRAW, light := Some (AmbientLight sc)\<rparr> in ([c], c))
             | POINT \<Rightarrow> point_light_commands (point_lights (scenes s1 sc)) cmd1
             | DIRECTIONAL \<Rightarrow>
                 directional_light_commands sm (receive_shadow s1 e)
                   (directional_lights (scenes s1 sc)) cmd1);
          (rest, cmd3, s2) =
            encode_entities sc light_type has_normal_target has_position_target
              pass_colour_target sm es cmd2 s1
      in (out @ rest, cmd3, s2))"

definition encode_light_pass_commands ::
  "sref \<Rightarrow> LightType \<Rightarrow> bool \<Rightarrow> bool \<Rightarrow> target option \<Rightarrow> shadow_maps
     \<Rightarrow> RenderCommand \<Rightarrow> world \<Rightarrow> RenderCommand list \<times> RenderCommand \<times> world" where
  "encode_light_pass_commands sc light_type has_normal_target has_position_target
     pass_colour_target sm cmd s =
     encode_entities sc light_type has_normal_target has_position_target pass_colour_target sm
       (entities (scenes s sc)) cmd s"

text \<open>The four blocks of the body of the second loop of \<open>build\<close>, in the order of the
  source: ambient light, point lights, directional lights, sky box.\<close>

definition encode_ambient ::
  "shadow_maps \<Rightarrow> RenderPass \<Rightarrow> RenderCommand \<Rightarrow> world \<Rightarrow> RenderCommand list \<times> RenderCommand \<times> world" where
  "encode_ambient sm pass cmd s =
     (if ambient_occlusion (post_processing_description pass) = None
      then encode_light_pass_commands (scene pass) AMBIENT
             (normal_target pass \<noteq> None) (position_target pass \<noteq> None) (colour_target pass) sm cmd s
      else ([], cmd, s))"

definition encode_point ::
  "shadow_maps \<Rightarrow> RenderPass \<Rightarrow> RenderCommand \<Rightarrow> world \<Rightarrow> RenderCommand list \<times> RenderCommand \<times> world" where
  "encode_point sm pass cmd s =
     (if \<not> depth_only pass \<and> point_lights (scenes s (scene pass)) \<noteq> []
      then encode_light_pass_commands (scene pass) POINT
             (normal_target pass \<noteq> None) (position_target pass \<noteq> None) (colour_target pass) sm cmd s
      else ([], cmd, s))"

definition encode_directional ::
  "shadow_maps \<Rightarrow> RenderPass \<Rightarrow> RenderCommand \<Rightarrow> world \<Rightarrow> RenderCommand list \<times> RenderCommand \<times> world" where
  "encode_directional sm pass cmd s =
     (if \<not> depth_only pass \<and> directional_lights (scenes s (scene pass)) \<noteq> []
      then encode_light_pass_commands (scene pass) DIRECTIONAL
             (normal_target pass \<noteq> None) (position_target pass \<noteq> None) (colour_target pass) sm cmd s
      else ([], cmd, s))"

definition encode_sky_box ::
  "RenderPass \<Rightarrow> RenderCommand \<Rightarrow> world \<Rightarrow> RenderCommand list \<times> RenderCommand \<times> world" where
  "encode_sky_box pass cmd s =
     (if depth_only pass then ([], cmd, s)
      else case sky_box pass of
        None \<Rightarrow> ([], cmd, s)
      | Some cube_map \<Rightarrow>
          (let (sky_box_rg, sc1) = create_render_graph (SkyBoxNode cube_map) (scenes s (scene pass));
               (sky_box_entity, sc2) = create_entity (scene pass) sky_box_rg sc1;
               s1 = s\<lparr>scenes := (scenes s)(scene pass := sc2)\<rparr>;
               (m, s2) = create_material
                           \<lparr>mr_scene = scene pass, mr_render_graph = sky_box_rg,
                            mr_entity = sky_box_entity, mr_target = colour_target pass,
                            mr_light_type = AMBIENT, mr_normal = False, mr_position = False\<rparr> s1;
               cmd1 = cmd\<lparr>material := Some m, render_entity := Some sky_box_entity,
                          rc_type := DRAW, light := Some (AmbientLight (scene pass))\<rparr>
           in ([cmd1], cmd1, s2)))"

text \<open>The body of the second loop of \<open>build\<close> for the pass at position \<open>i\<close> of the final
  pass list, and the loop.\<close>

definition encode_pass ::
  "shadow_maps \<Rightarrow> nat \<Rightarrow> RenderPass \<Rightarrow> RenderCommand \<Rightarrow> world \<Rightarrow> RenderCommand list \<times> RenderCommand \<times> world" where
  "encode_pass sm i pass cmd s =
     (let cmd1 = cmd\<lparr>render_pass := Some i, rc_type := PASS_START\<rparr>;
          (ambient, cmd2, s2) = encode_ambient sm pass cmd1 s;
          (point, cmd3, s3) = encode_point sm pass cmd2 s2;
          (directional, cmd4, s4) = encode_directional sm pass cmd3 s3;
          (sky, cmd5, s5) = encode_sky_box pass cmd4 s4;
          cmd6 = cmd5\<lparr>rc_type := PASS_END\<rparr>
      in (cmd1 # ambient @ point @ directional @ sky @ [cmd6], cmd6, s5))"

fun encode_passes ::
  "shadow_maps \<Rightarrow> nat \<Rightarrow> RenderPass list \<Rightarrow> RenderCommand \<Rightarrow> world \<Rightarrow> RenderCommand list \<times> RenderCommand \<times> world" where
  "encode_passes sm i [] cmd s = ([], cmd, s)"
| "encode_passes sm i (pass # passes) cmd s =
     (let (out, cmd1, s1) = encode_pass sm i pass cmd s;
          (rest, cmd2, s2) = encode_passes sm (Suc i) passes cmd1 s1
      in (out @ rest, cmd2, s2))"

section \<open>The builder\<close>

text \<open>\<^verbatim>\<open>RenderQueueBuilder::build\<close>. The result is the render queue, the caller's
  \<^verbatim>\<open>render_passes\<close> deque as the call leaves it (the source clears it and fills it with the
  final pass list), and the store.\<close>

definition build :: "RenderPass list \<Rightarrow> world \<Rightarrow> RenderCommand list \<times> RenderPass list \<times> world" where
  "build render_passes s =
     (let (initial_passes, pre_process_passes, sm, s1) = inject render_passes [] Map.empty s;
          (render_passes1, s2) =
            add_post_processing_passes (pre_process_passes @ initial_passes) [] s1;
          (render_queue, cmd, s3) = encode_passes sm 0 render_passes1 default_command s2
      in (render_queue @ [cmd\<lparr>rc_type := PRESENT\<rparr>], render_passes1, s3))"

section \<open>Derived notions used in the statements\<close>

text \<open>The blocks of commands that the loop body pushes for one pass, between its
  \<open>PASS_START\<close> and its \<open>PASS_END\<close>: each is the output of the corresponding block of
  \<open>encode_pass\<close>, run on the command object and the store that the preceding blocks leave.\<close>

definition ambient_draws ::
  "shadow_maps \<Rightarrow> nat \<Rightarrow> RenderPass \<Rightarrow> RenderCommand \<Rightarrow> world \<Rightarrow> RenderCommand list" where
  "ambient_draws sm i pass cmd s =
     fst (encode_ambient sm pass (cmd\<lparr>render_pass := Some i, rc_type := PASS_START\<rparr>) s)"

definition point_draws ::
  "shadow_maps \<Rightarrow> nat \<Rightarrow> RenderPass \<Rightarrow> RenderCommand \<Rightarrow> world \<Rightarrow> RenderCommand list" where
  "point_draws sm i pass cmd s =
     (let cmd1 = cmd\<lparr>render_pass := Some i, rc_type := PASS_START\<rparr>;
          (ambient, cmd2, s2) = encode_ambient sm pass cmd1 s
      in fst (encode_point sm pass cmd2 s2))"

definition directional_draws ::
  "shadow_maps \<Rightarrow> nat \<Rightarrow> RenderPass \<Rightarrow> RenderCommand \<Rightarrow> world \<Rightarrow> RenderCommand list" where
  "directional_draws sm i pass cmd s =
     (let cmd1 = cmd\<lparr>render_pass := Some i, rc_type := PASS_START\<rparr>;
          (ambient, cmd2, s2) = encode_ambient sm pass cmd1 s;
          (point, cmd3, s3) = encode_point sm pass cmd2 s2
      in fst (encode_directional sm pass cmd3 s3))"

definition sky_box_draws ::
  "shadow_maps \<Rightarrow> nat \<Rightarrow> RenderPass \<Rightarrow> RenderCommand \<Rightarrow> world \<Rightarrow> RenderCommand list" where
  "sky_box_draws sm i pass cmd s =
     (let cmd1 = cmd\<lparr>render_pass := Some i, rc_type := PASS_START\<rparr>;
          (ambient, cmd2, s2) = encode_ambient sm pass cmd1 s;
          (point, cmd3, s3) = encode_point sm pass cmd2 s2;
          (directional, cmd4, s4) = encode_directional sm pass cmd3 s3
      in fst (encode_sky_box pass cmd4 s4))"

text \<open>The scene and the camera that \<open>add_pass\<close> leaves in slot \<open>n\<close> of
  \<^verbatim>\<open>pass_data_\<close>: a scene with one render graph, whose render node is \<open>rn\<close>, and the
  full-screen quad bound to it; an orthographic camera of the builder's dimensions.\<close>

definition stage_scene :: "nat \<Rightarrow> render_node \<Rightarrow> Scene" where
  "stage_scene n rn =
     \<lparr>render_graphs = [rn], entities = [(0, SingleEntity (PassDataScene n) 0)],
      point_lights = [], directional_lights = []\<rparr>"

definition stage_camera :: "world \<Rightarrow> Camera" where
  "stage_camera s = \<lparr>camera_type = ORTHOGRAPHIC, camera_width = width s, camera_height = height s\<rparr>"

text \<open>A run of calls of \<open>add_pass\<close>, one for each callback of a list, in order.\<close>

fun add_passes ::
  "(target \<Rightarrow> render_node) list \<Rightarrow> RenderPass list \<Rightarrow> world \<Rightarrow> RenderPass list \<times> world" where
  "add_passes [] render_passes s = (render_passes, s)"
| "add_passes (cb # cbs) render_passes s =
     (let (tgt, render_passes1, s1) = add_pass cb render_passes s
      in add_passes cbs render_passes1 s1)"

text \<open>The passes that a run of \<open>m\<close> calls of \<open>add_pass\<close> appends when it starts with
  \<open>n\<close> slots in \<^verbatim>\<open>pass_data_\<close> and \<open>k\<close> targets allocated: the pass of call \<open>j\<close> has
  the scene and the camera of slot \<open>n + j\<close>, and its colour target is the target that the next
  call allocates; the last pass has none yet.\<close>

definition stage_passes :: "nat \<Rightarrow> nat \<Rightarrow> nat \<Rightarrow> RenderPass list" where
  "stage_passes n k m =
     map (\<lambda>j. (new_pass (PassDataScene (n + j)) (PassDataCamera (n + j)))
                 \<lparr>colour_target := (if Suc j < m then Some (ProviderTarget (k + Suc j)) else None)\<rparr>)
       [0..<m]"

text \<open>The callbacks of the stages that \<open>expand_pass\<close> adds for a description, in order;
  \<open>null_target\<close> is the target that the first call of \<open>add_pass\<close> returns.\<close>

definition stage_callbacks :: "PostProcessingDescription \<Rightarrow> target \<Rightarrow> (target \<Rightarrow> render_node) list" where
  "stage_callbacks description null_target =
     (case bloom description of
        None \<Rightarrow> []
      | Some b \<Rightarrow> [pass_through_graph, threshold_graph b]
                  @ replicate (unat (iterations b)) blur_graph
                  @ [composite_graph null_target])
     @ (case colour_adjust description of None \<Rightarrow> [] | Some ca \<Rightarrow> [colour_adjust_graph ca])
     @ (if anti_aliasing description then [anti_aliasing_graph] else [])"

text \<open>The shadow pass that the injector derives from a pass for a light and a target.\<close>

definition shadow_pass_for :: "RenderPass \<Rightarrow> nat \<Rightarrow> target \<Rightarrow> RenderPass" where
  "shadow_pass_for pass l rt =
     pass\<lparr>post_processing_description := empty_description, camera := ShadowCamera l,
          colour_target := Some rt, normal_target := None, position_target := None,
          depth_only := True, clear_colour := True, clear_depth := True\<rparr>"

text \<open>A pass for which the encoder adds a sky box to the scene: one that declares a sky box
  and is not depth-only.\<close>

definition sky_active :: "RenderPass \<Rightarrow> bool" where
  "sky_active p \<longleftrightarrow> \<not> depth_only p \<and> sky_box p \<noteq> None"

text \<open>The sky boxes that the encoder adds to the scene \<open>r\<close> for a list of passes, in the
  order of the passes: the sky box of each pass over \<open>r\<close> that is not depth-only and declares
  one.\<close>

definition sky_boxes :: "sref \<Rightarrow> RenderPass list \<Rightarrow> nat list" where
  "sky_boxes r ps =
     concat (map (\<lambda>p. if scene p = r \<and> \<not> depth_only p
                         then (case sky_box p of None \<Rightarrow> [] | Some cube_map \<Rightarrow> [cube_map])
                         else []) ps)"

text \<open>The scene \<open>r\<close> with sky boxes added: for each one a render graph with a sky box node
  and an entity bound to it, at the end of the scene's collections.\<close>

definition with_sky_boxes :: "sref \<Rightarrow> nat list \<Rightarrow> Scene \<Rightarrow> Scene" where
  "with_sky_boxes r ks sc =
     sc\<lparr>render_graphs := render_graphs sc @ map SkyBoxNode ks,
        entities := entities sc @
          map (\<lambda>j. (length (render_graphs sc) + j, SingleEntity r (length (render_graphs sc) + j)))
            [0..<length ks]\<rparr>"

text \<open>A pass for which the encoder adds no sky box to the scene \<open>r\<close>.\<close>

definition keeps_scene :: "sref \<Rightarrow> RenderPass \<Rightarrow> bool" where
  "keeps_scene r p \<longleftrightarrow> (scene p = r \<longrightarrow> \<not> sky_active p)"

text \<open>What the injector and the expander leave of the store: the builder's dimensions, the
  attributes of lights and entities, the log of material requests, the caller's scenes, the
  caller's cameras and the shadow cameras.\<close>

definition caller_frame :: "world \<Rightarrow> world \<Rightarrow> bool" where
  "caller_frame s s' \<longleftrightarrow>
     width s' = width s \<and> height s' = height s
     \<and> casts_shadows s' = casts_shadows s \<and> receive_shadow s' = receive_shadow s
     \<and> materials s' = materials s
     \<and> (\<forall>i. scenes s' (CallerScene i) = scenes s (CallerScene i))
     \<and> (\<forall>i. cameras s' (CallerCamera i) = cameras s (CallerCamera i))
     \<and> (\<forall>l. cameras s' (ShadowCamera l) = cameras s (ShadowCamera l))"

text \<open>A scene that differs from another by render graphs and entities added at the end.\<close>

definition grows :: "Scene \<Rightarrow> Scene \<Rightarrow> bool" where
  "grows sc sc' \<longleftrightarrow>
     point_lights sc' = point_lights sc \<and> directional_lights sc' = directional_lights sc
     \<and> (\<exists>es. entities sc' = entities sc @ es)
     \<and> (\<exists>gs. render_graphs sc' = render_graphs sc @ gs)"

text \<open>What the encoder leaves of the store: everything but the log of material requests and
  the scenes, which grow.\<close>

definition encoder_frame :: "world \<Rightarrow> world \<Rightarrow> bool" where
  "encoder_frame s s' \<longleftrightarrow>
     width s' = width s \<and> height s' = height s
     \<and> casts_shadows s' = casts_shadows s \<and> receive_shadow s' = receive_shadow s
     \<and> pass_data_size s' = pass_data_size s \<and> render_targets s' = render_targets s
     \<and> cameras s' = cameras s
     \<and> (\<forall>r. grows (scenes s r) (scenes s' r))"

text \<open>The material requests that \<^verbatim>\<open>encode_light_pass_commands\<close> makes for a list of
  \<^verbatim>\<open>(render_graph, entity)\<close> pairs: one for each pair, in order.\<close>

definition requests_for ::
  "sref \<Rightarrow> LightType \<Rightarrow> bool \<Rightarrow> bool \<Rightarrow> target option \<Rightarrow> (nat \<times> entity) list \<Rightarrow> MaterialRequest list" where
  "requests_for sc light_type has_normal_target has_position_target pass_colour_target es =
     map (\<lambda>x. \<lparr>mr_scene = sc, mr_render_graph = fst x, mr_entity = snd x,
                mr_target = pass_colour_target, mr_light_type = light_type,
                mr_normal = (has_normal_target \<and> light_type = AMBIENT),
                mr_position = (has_position_target \<and> light_type = AMBIENT)\<rparr>) es"

text \<open>The material requests made while one pass is encoded.\<close>

definition pass_requests ::
  "shadow_maps \<Rightarrow> nat \<Rightarrow> RenderPass \<Rightarrow> RenderCommand \<Rightarrow> world \<Rightarrow> MaterialRequest list" where
  "pass_requests sm i pass cmd s =
     drop (length (materials s)) (materials (snd (snd (encode_pass sm i pass cmd s))))"

text \<open>The span of one pass in the queue: a \<open>PASS_START\<close> of the pass, then \<open>DRAW\<close> commands
  of the pass only, then a \<open>PASS_END\<close> of the pass.\<close>

definition is_pass_span :: "nat \<Rightarrow> RenderCommand list \<Rightarrow> bool" where
  "is_pass_span i cs =
     (case cs of
        [] \<Rightarrow> False
      | start # rest \<Rightarrow>
          rest \<noteq> [] \<and> rc_type start = PASS_START \<and> render_pass start = Some i
          \<and> list_all (\<lambda>d. rc_type d = DRAW \<and> render_pass d = Some i) (butlast rest)
          \<and> rc_type (last rest) = PASS_END \<and> render_pass (last rest) = Some i)"

section \<open>Example inputs\<close>

text \<open>A scene of the caller with two entities, of which only the first receives shadows, and
  one directional light, which casts shadows; a store holding it and the scene below; and a
  pass over it.\<close>

definition example_scene :: Scene where
  "example_scene =
     \<lparr>render_graphs = [CallerGraph 0, CallerGraph 1],
      entities = [(0, CallerEntity 0), (1, CallerEntity 1)],
      point_lights = [], directional_lights = [7]\<rparr>"

text \<open>A second scene of the caller, with two entities, three point lights and no directional
  light.\<close>

definition lit_scene :: Scene where
  "lit_scene =
     \<lparr>render_graphs = [CallerGraph 0, CallerGraph 1],
      entities = [(0, CallerEntity 10), (1, CallerEntity 11)],
      point_lights = [3, 4, 5], directional_lights = []\<rparr>"

definition example_world :: world where
  "example_world =
     \<lparr>width = 800, height = 600, pass_data_size = 0,
      scenes = (\<lambda>r. empty_scene)(CallerScene 0 := example_scene, CallerScene 1 := lit_scene),
      cameras = (\<lambda>r. \<lparr>camera_type = PERSPECTIVE, camera_width = 800, camera_height = 600\<rparr>),
      casts_shadows = (\<lambda>l. True),
      receive_shadow = (\<lambda>e. e = CallerEntity 0),
      render_targets = [], materials = []\<rparr>"

definition example_pass :: RenderPass where
  "example_pass = new_pass (CallerScene 0) (CallerCamera 0)"


definition occlusion_pass :: RenderPass where
  "occlusion_pass =
     example_pass\<lparr>colour_target := Some (CallerTarget 5),
                  post_processing_description := empty_description\<lparr>ambient_occlusion := Some 0\<rparr>\<rparr>"

text \<open>The first pass with a colour target of the caller and bloom configured with threshold 0.8
  and three iterations.\<close>

definition bloom_pass :: RenderPass where
  "bloom_pass =
     example_pass\<lparr>colour_target := Some (CallerTarget 5),
                  post_processing_description :=
                    empty_description\<lparr>bloom := Some \<lparr>threshold = 0.8, iterations = 3\<rparr>\<rparr>\<rparr>"

text \<open>The first pass with a sky box.\<close>

definition sky_pass :: RenderPass where
  "sky_pass = example_pass\<lparr>sky_box := Some 1\<rparr>"

text \<open>A pass over the second scene.\<close>

definition lit_pass :: RenderPass where
  "lit_pass = new_pass (CallerScene 1) (CallerCamera 0)"

section \<open>The loops of the command encoder\<close>

lemma create_material_frame:
  "snd (create_material req s) = s\<lparr>materials := materials s @ [req]\<rparr>"
  by (simp add: create_material_def)

lemma point_light_commands_out:
  "fst (point_light_commands ls cmd) = map (\<lambda>l. cmd\<lparr>rc_type := DRAW, light := Some (PointLight l)\<rparr>) ls"
  by (induction ls arbitrary: cmd) (simp_all add: Let_def split_beta)

lemma point_light_commands_cmd:
  "snd (point_light_commands ls cmd) =
     (if ls = [] then cmd else cmd\<lparr>rc_type := DRAW, light := Some (PointLight (last ls))\<rparr>)"
  by (induction ls arbitrary: cmd) (simp_all add: Let_def split_beta)

lemma directional_light_commands_fields:
  "c \<in> set (fst (directional_light_commands sm r ls cmd)) \<Longrightarrow>
     rc_type c = DRAW \<and> render_pass c = render_pass cmd \<and> material c = material cmd
     \<and> render_entity c = render_entity cmd \<and> (\<exists>l \<in> set ls. light c = Some (DirectionalLight l))"
  by (induction ls arbitrary: cmd) (auto simp: Let_def split_beta split: if_splits)

lemma directional_light_commands_cmd_fields:
  "render_pass (snd (directional_light_commands sm r ls cmd)) = render_pass cmd
   \<and> material (snd (directional_light_commands sm r ls cmd)) = material cmd
   \<and> render_entity (snd (directional_light_commands sm r ls cmd)) = render_entity cmd"
  by (induction ls arbitrary: cmd) (auto simp: Let_def split_beta split: if_splits)

lemma directional_light_commands_lights:
  "map light (fst (directional_light_commands sm r ls cmd)) = map (\<lambda>l. Some (DirectionalLight l)) ls"
  by (induction ls arbitrary: cmd) (auto simp: Let_def split_beta split: if_splits)

lemma case_option_id: "(case x of None \<Rightarrow> None | Some t \<Rightarrow> Some t) = x"
  by (cases x) simp_all

lemma directional_light_commands_receiving:
  "map shadow_map (fst (directional_light_commands sm True ls cmd)) = map sm ls"
  by (induction ls arbitrary: cmd) (auto simp: Let_def split_beta case_option_id)

lemma directional_light_commands_not_receiving:
  "c \<in> set (fst (directional_light_commands sm False ls cmd)) \<Longrightarrow> shadow_map c = shadow_map cmd"
  by (induction ls arbitrary: cmd) (auto simp: Let_def split_beta)



lemma encode_entities_Cons:
  "encode_entities sc lt hn hp ct sm (x # es) cmd s =
     (let s1 = s\<lparr>materials := materials s @
                  [\<lparr>mr_scene = sc, mr_render_graph = fst x, mr_entity = snd x, mr_target = ct,
                    mr_light_type = lt, mr_normal = (hn \<and> lt = AMBIENT),
                    mr_position = (hp \<and> lt = AMBIENT)\<rparr>]\<rparr>;
          cmd1 = cmd\<lparr>material := Some (Material (length (materials s))),
                     render_entity := Some (snd x)\<rparr>;
          r = (case lt of
                 AMBIENT \<Rightarrow>
                   ([cmd1\<lparr>rc_type := DRAW, light := Some (AmbientLight sc)\<rparr>],
                    cmd1\<lparr>rc_type := DRAW, light := Some (AmbientLight sc)\<rparr>)
               | POINT \<Rightarrow> point_light_commands (point_lights (scenes s sc)) cmd1
               | DIRECTIONAL \<Rightarrow>
                   directional_light_commands sm (receive_shadow s (snd x))
                     (directional_lights (scenes s sc)) cmd1);
          rest = encode_entities sc lt hn hp ct sm es (snd r) s1
      in (fst r @ fst rest, snd rest))"
  by (cases x) (simp add: Let_def split_beta create_material_def split: LightType.splits)

lemma encode_entities_world:
  "snd (snd (encode_entities sc lt hn hp ct sm es cmd s)) =
     s\<lparr>materials := materials s @ requests_for sc lt hn hp ct es\<rparr>"
  by (induction es arbitrary: cmd s)
     (simp_all add: Let_def encode_entities_Cons requests_for_def del: encode_entities.simps(2))

lemma encode_entities_cmd_pass:
  "render_pass (fst (snd (encode_entities sc lt hn hp ct sm es cmd s))) = render_pass cmd"
  by (induction es arbitrary: cmd s)
     (simp_all add: Let_def encode_entities_Cons point_light_commands_cmd
        directional_light_commands_cmd_fields split: LightType.splits del: encode_entities.simps(2))

lemma encode_entities_out_pass:
  "c \<in> set (fst (encode_entities sc lt hn hp ct sm es cmd s)) \<Longrightarrow>
     rc_type c = DRAW \<and> render_pass c = render_pass cmd"
proof (induction es arbitrary: cmd s)
  case Nil
  then show ?case by simp
next
  case (Cons x es)
  show ?case
    using Cons.prems Cons.IH
    by (cases lt)
       (auto simp: Let_def encode_entities_Cons point_light_commands_out point_light_commands_cmd
          directional_light_commands_cmd_fields
          simp del: encode_entities.simps(2)
          dest!: directional_light_commands_fields)
qed

lemma encode_entities_ambient:
  "map (\<lambda>c. (render_entity c, light c)) (fst (encode_entities sc AMBIENT hn hp ct sm es cmd s)) =
     map (\<lambda>x. (Some (snd x), Some (AmbientLight sc))) es"
  by (induction es arbitrary: cmd s)
     (simp_all add: Let_def encode_entities_Cons del: encode_entities.simps(2))

lemma encode_entities_point:
  "map (\<lambda>c. (render_entity c, light c)) (fst (encode_entities sc POINT hn hp ct sm es cmd s)) =
     concat (map (\<lambda>x. map (\<lambda>l. (Some (snd x), Some (PointLight l))) (point_lights (scenes s sc))) es)"
  by (induction es arbitrary: cmd s)
     (simp_all add: Let_def encode_entities_Cons point_light_commands_out comp_def
        del: encode_entities.simps(2))

lemma directional_light_commands_pairs:
  "map (\<lambda>c. (render_entity c, light c)) (fst (directional_light_commands sm r ls c0))
     = map (\<lambda>l. (render_entity c0, Some (DirectionalLight l))) ls"
  by (induction ls arbitrary: c0) (auto simp: Let_def split_beta)

lemma encode_entities_directional:
  "map (\<lambda>c. (render_entity c, light c)) (fst (encode_entities sc DIRECTIONAL hn hp ct sm es cmd s)) =
     concat (map (\<lambda>x. map (\<lambda>l. (Some (snd x), Some (DirectionalLight l))) (directional_lights (scenes s sc))) es)"
  by (induction es arbitrary: cmd s)
     (simp_all add: Let_def encode_entities_Cons directional_light_commands_pairs
        del: encode_entities.simps(2))

lemma directional_light_commands_lookup:
  "c \<in> set (fst (directional_light_commands sm True ls c0)) \<Longrightarrow>
     light c = Some (DirectionalLight l) \<Longrightarrow> shadow_map c = sm l"
  by (induction ls arbitrary: c0) (auto simp: Let_def split_beta case_option_id)

lemma encode_entities_shadow_map:
  "c \<in> set (fst (encode_entities sc DIRECTIONAL hn hp ct sm es cmd s)) \<Longrightarrow>
   render_entity c = Some e \<Longrightarrow> receive_shadow s e \<Longrightarrow> light c = Some (DirectionalLight l) \<Longrightarrow>
   shadow_map c = sm l"
proof (induction es arbitrary: cmd s)
  case Nil
  then show ?case by simp
next
  case (Cons x es)
  let ?s1 = "s\<lparr>materials := materials s @
                  [\<lparr>mr_scene = sc, mr_render_graph = fst x, mr_entity = snd x, mr_target = ct,
                    mr_light_type = DIRECTIONAL, mr_normal = (hn \<and> DIRECTIONAL = AMBIENT),
                    mr_position = (hp \<and> DIRECTIONAL = AMBIENT)\<rparr>]\<rparr>"
  let ?cmd1 = "cmd\<lparr>material := Some (Material (length (materials s))), render_entity := Some (snd x)\<rparr>"
  let ?r = "directional_light_commands sm (receive_shadow s (snd x)) (directional_lights (scenes s sc)) ?cmd1"
  from Cons.prems(1) consider
      (here) "c \<in> set (fst ?r)"
    | (rest) "c \<in> set (fst (encode_entities sc DIRECTIONAL hn hp ct sm es (snd ?r) ?s1))"
    by (auto simp: Let_def encode_entities_Cons simp del: encode_entities.simps(2))
  then show ?case
  proof cases
    case here
    from directional_light_commands_fields[OF here] have "render_entity c = Some (snd x)" by simp
    with Cons.prems(2) have "snd x = e" by simp
    with here Cons.prems(3) have "c \<in> set (fst (directional_light_commands sm True
                  (directional_lights (scenes s sc)) ?cmd1))"
      by simp
    from directional_light_commands_lookup[OF this Cons.prems(4)] show ?thesis .
  next
    case rest
    have "receive_shadow ?s1 e" using Cons.prems(3) by simp
    from Cons.IH[OF rest Cons.prems(2) this Cons.prems(4)] show ?thesis .
  qed
qed

section \<open>Shadow map lookup\<close>

text \<open>
  C9. When the directional lights of a scene are encoded, a light without an entry in the
  shadow map table is no error: for an entity that receives shadows and such a light a
  \<open>DRAW\<close> command is pushed all the same, and every command for that entity and that light
  carries the null shadow map. The encoder has no failing branch: the lookup with
  \<^verbatim>\<open>at\<close> is only reached when the table has the key.
\<close>

theorem missing_shadow_map_is_null:
  assumes "(rg, e) \<in> set (entities (scenes s sc))"
    and "l \<in> set (directional_lights (scenes s sc))"
    and "receive_shadow s e"
    and "sm l = None"
  shows "(\<exists>c \<in> set (fst (encode_light_pass_commands sc DIRECTIONAL hn hp ct sm cmd s)).
            render_entity c = Some e \<and> light c = Some (DirectionalLight l))
       \<and> (\<forall>c \<in> set (fst (encode_light_pass_commands sc DIRECTIONAL hn hp ct sm cmd s)).
            render_entity c = Some e \<and> light c = Some (DirectionalLight l)
              \<longrightarrow> rc_type c = DRAW \<and> shadow_map c = None)"
proof -
  let ?out = "fst (encode_light_pass_commands sc DIRECTIONAL hn hp ct sm cmd s)"
  have pairs: "map (\<lambda>c. (render_entity c, light c)) ?out =
      concat (map (\<lambda>x. map (\<lambda>l. (Some (snd x), Some (DirectionalLight l)))
         (directional_lights (scenes s sc))) (entities (scenes s sc)))"
    by (simp add: encode_light_pass_commands_def encode_entities_directional)
  have "(Some e, Some (DirectionalLight l)) \<in> set (map (\<lambda>c. (render_entity c, light c)) ?out)"
    unfolding pairs using assms(1,2) by force
  then have ex: "\<exists>c \<in> set ?out. render_entity c = Some e \<and> light c = Some (DirectionalLight l)"
    by auto
  have "rc_type c = DRAW \<and> shadow_map c = None"
    if "c \<in> set ?out" "render_entity c = Some e" "light c = Some (DirectionalLight l)" for c
  proof -
    from that(1) have m: "c \<in> set (fst (encode_entities sc DIRECTIONAL hn hp ct sm
        (entities (scenes s sc)) cmd s))"
      by (simp add: encode_light_pass_commands_def)
    from encode_entities_out_pass[OF m] encode_entities_shadow_map[OF m that(2) assms(3) that(3)]
      assms(4)
    show ?thesis by simp
  qed
  with ex show ?thesis by blast
qed

theorem missing_shadow_map_is_null_witness:
  "(0, CallerEntity 0) \<in> set (entities (scenes example_world (CallerScene 0)))
   \<and> 7 \<in> set (directional_lights (scenes example_world (CallerScene 0)))
   \<and> receive_shadow example_world (CallerEntity 0)
   \<and> (Map.empty :: shadow_maps) 7 = None
   \<and> (\<exists>c \<in> set (fst (encode_light_pass_commands (CallerScene 0) DIRECTIONAL False False None
                        Map.empty default_command example_world)).
         render_entity c = Some (CallerEntity 0) \<and> light c = Some (DirectionalLight 7)
         \<and> rc_type c = DRAW \<and> shadow_map c = None)"
proof -
  have h1: "(0, CallerEntity 0) \<in> set (entities (scenes example_world (CallerScene 0)))"
    by (simp add: example_world_def example_scene_def)
  have h2: "7 \<in> set (directional_lights (scenes example_world (CallerScene 0)))"
    by (simp add: example_world_def example_scene_def)
  have h3: "receive_shadow example_world (CallerEntity 0)"
    by (simp add: example_world_def)
  have h4: "(Map.empty :: shadow_maps) 7 = None"
    by simp
  from missing_shadow_map_is_null[OF h1 h2 h3 h4, of False False None default_command] h1 h2 h3 h4
  show ?thesis by blast
qed

section \<open>Shadow maps of entities that do not receive shadows\<close>

text \<open>
  C2. The claim asks that a \<open>DRAW\<close> command for an entity that does not receive shadows
  carries no shadow map. The command object is shared by all commands and its shadow map is only
  written for receiving entities, so such a command keeps the shadow map of an earlier one. In
  the example the second entity does not receive shadows, and its \<open>DRAW\<close> for the directional
  light (the command at position 8 of the queue) carries the shadow map target that was set
  for the first entity.
\<close>

theorem stale_shadow_map_on_non_receiving_entity:
  "rc_type (fst (build [example_pass] example_world) ! 8) = DRAW
   \<and> render_entity (fst (build [example_pass] example_world) ! 8) = Some (CallerEntity 1)
   \<and> light (fst (build [example_pass] example_world) ! 8) = Some (DirectionalLight 7)
   \<and> \<not> receive_shadow example_world (CallerEntity 1)
   \<and> shadow_map (fst (build [example_pass] example_world) ! 8) = Some (ProviderTarget 0)"
  by code_simp

section \<open>The blocks of a pass\<close>

lemma encode_light_pass_commands_world:
  "snd (snd (encode_light_pass_commands sc lt hn hp ct sm cmd s)) =
     s\<lparr>materials := materials s @ requests_for sc lt hn hp ct (entities (scenes s sc))\<rparr>"
  by (simp add: encode_light_pass_commands_def encode_entities_world)

lemma requests_for_light_type: "r \<in> set (requests_for sc lt hn hp ct es) \<Longrightarrow> mr_light_type r = lt"
  by (auto simp: requests_for_def)

lemma encode_light_pass_commands_cmd_pass:
  "render_pass (fst (snd (encode_light_pass_commands sc lt hn hp ct sm cmd s))) = render_pass cmd"
  by (simp add: encode_light_pass_commands_def encode_entities_cmd_pass)

lemma encode_light_pass_commands_out_pass:
  "c \<in> set (fst (encode_light_pass_commands sc lt hn hp ct sm cmd s)) \<Longrightarrow>
     rc_type c = DRAW \<and> render_pass c = render_pass cmd"
  unfolding encode_light_pass_commands_def by (rule encode_entities_out_pass)

text \<open>What a block leaves of the store: everything but the log of material requests.\<close>

lemma encode_ambient_world:
  "snd (snd (encode_ambient sm pass cmd s)) =
     s\<lparr>materials := materials s @
        (if ambient_occlusion (post_processing_description pass) = None
         then requests_for (scene pass) AMBIENT (normal_target pass \<noteq> None)
                (position_target pass \<noteq> None) (colour_target pass) (entities (scenes s (scene pass)))
         else [])\<rparr>"
  by (simp add: encode_ambient_def encode_light_pass_commands_world)

lemma encode_point_world:
  "snd (snd (encode_point sm pass cmd s)) =
     s\<lparr>materials := materials s @
        (if \<not> depth_only pass \<and> point_lights (scenes s (scene pass)) \<noteq> []
         then requests_for (scene pass) POINT (normal_target pass \<noteq> None)
                (position_target pass \<noteq> None) (colour_target pass) (entities (scenes s (scene pass)))
         else [])\<rparr>"
  by (simp add: encode_point_def encode_light_pass_commands_world)

lemma encode_directional_world:
  "snd (snd (encode_directional sm pass cmd s)) =
     s\<lparr>materials := materials s @
        (if \<not> depth_only pass \<and> directional_lights (scenes s (scene pass)) \<noteq> []
         then requests_for (scene pass) DIRECTIONAL (normal_target pass \<noteq> None)
                (position_target pass \<noteq> None) (colour_target pass) (entities (scenes s (scene pass)))
         else [])\<rparr>"
  by (simp add: encode_directional_def encode_light_pass_commands_world)

lemma encode_ambient_fields:
  "render_pass (fst (snd (encode_ambient sm pass cmd s))) = render_pass cmd"
  "c \<in> set (fst (encode_ambient sm pass cmd s)) \<Longrightarrow> rc_type c = DRAW \<and> render_pass c = render_pass cmd"
  by (auto simp: encode_ambient_def encode_light_pass_commands_cmd_pass
        dest: encode_light_pass_commands_out_pass split: if_splits)

lemma encode_point_fields:
  "render_pass (fst (snd (encode_point sm pass cmd s))) = render_pass cmd"
  "c \<in> set (fst (encode_point sm pass cmd s)) \<Longrightarrow> rc_type c = DRAW \<and> render_pass c = render_pass cmd"
  by (auto simp: encode_point_def encode_light_pass_commands_cmd_pass
        dest: encode_light_pass_commands_out_pass split: if_splits)

lemma encode_directional_fields:
  "render_pass (fst (snd (encode_directional sm pass cmd s))) = render_pass cmd"
  "c \<in> set (fst (encode_directional sm pass cmd s)) \<Longrightarrow> rc_type c = DRAW \<and> render_pass c = render_pass cmd"
  by (auto simp: encode_directional_def encode_light_pass_commands_cmd_pass
        dest: encode_light_pass_commands_out_pass split: if_splits)

lemma encode_sky_box_fields:
  "render_pass (fst (snd (encode_sky_box pass cmd s))) = render_pass cmd"
  "c \<in> set (fst (encode_sky_box pass cmd s)) \<Longrightarrow> rc_type c = DRAW \<and> render_pass c = render_pass cmd"
  by (auto simp: encode_sky_box_def Let_def split_beta split: option.splits if_splits)

lemma encode_pass_blocks:
  "fst (encode_pass sm i pass cmd s) =
     cmd\<lparr>render_pass := Some i, rc_type := PASS_START\<rparr>
       # ambient_draws sm i pass cmd s @ point_draws sm i pass cmd s
       @ directional_draws sm i pass cmd s @ sky_box_draws sm i pass cmd s
       @ [fst (snd (encode_pass sm i pass cmd s))]"
  by (simp add: encode_pass_def ambient_draws_def point_draws_def directional_draws_def
        sky_box_draws_def Let_def split_beta)

lemma encode_pass_end:
  "rc_type (fst (snd (encode_pass sm i pass cmd s))) = PASS_END
   \<and> render_pass (fst (snd (encode_pass sm i pass cmd s))) = Some i"
  by (simp add: encode_pass_def Let_def split_beta encode_ambient_fields encode_point_fields
        encode_directional_fields encode_sky_box_fields)

lemma ambient_draws_fields:
  "c \<in> set (ambient_draws sm i pass cmd s) \<Longrightarrow> rc_type c = DRAW \<and> render_pass c = Some i"
  by (auto simp: ambient_draws_def dest: encode_ambient_fields(2))

lemma point_draws_fields:
  "c \<in> set (point_draws sm i pass cmd s) \<Longrightarrow> rc_type c = DRAW \<and> render_pass c = Some i"
  by (auto simp: point_draws_def Let_def split_beta encode_ambient_fields(1)
        dest!: encode_point_fields(2))

lemma directional_draws_fields:
  "c \<in> set (directional_draws sm i pass cmd s) \<Longrightarrow> rc_type c = DRAW \<and> render_pass c = Some i"
  by (auto simp: directional_draws_def Let_def split_beta encode_ambient_fields(1)
        encode_point_fields(1) dest!: encode_directional_fields(2))

lemma sky_box_draws_fields:
  "c \<in> set (sky_box_draws sm i pass cmd s) \<Longrightarrow> rc_type c = DRAW \<and> render_pass c = Some i"
  by (auto simp: sky_box_draws_def Let_def split_beta encode_ambient_fields(1)
        encode_point_fields(1) encode_directional_fields(1) dest!: encode_sky_box_fields(2))

lemma encode_pass_span: "is_pass_span i (fst (encode_pass sm i pass cmd s))"
  using ambient_draws_fields[of _ sm i pass cmd s] point_draws_fields[of _ sm i pass cmd s]
    directional_draws_fields[of _ sm i pass cmd s] sky_box_draws_fields[of _ sm i pass cmd s]
  by (auto simp: is_pass_span_def encode_pass_blocks encode_pass_end list_all_iff butlast_append
        simp flip: append_assoc)

section \<open>The structure of the render queue\<close>

lemma is_pass_span_types:
  assumes sp: "is_pass_span i cs" and c: "c \<in> set cs"
  shows "rc_type c \<noteq> PRESENT"
proof (cases cs)
  case Nil
  with sp show ?thesis by (simp add: is_pass_span_def)
next
  case (Cons start rest)
  from sp Cons have ne: "rest \<noteq> []" and st: "rc_type start = PASS_START"
    and dr: "list_all (\<lambda>d. rc_type d = DRAW \<and> render_pass d = Some i) (butlast rest)"
    and en: "rc_type (last rest) = PASS_END"
    by (simp_all add: is_pass_span_def)
  from ne have "set rest = set (butlast rest @ [last rest])" by simp
  then have "set rest = set (butlast rest) \<union> {last rest}" by (simp only: set_append) simp
  with c Cons have "c = start \<or> c \<in> set (butlast rest) \<or> c = last rest" by auto
  then show ?thesis
  proof (elim disjE)
    assume "c = start" with st show ?thesis by simp
  next
    assume "c \<in> set (butlast rest)"
    with dr have "rc_type c = DRAW" by (simp add: list_all_iff)
    then show ?thesis by simp
  next
    assume "c = last rest" with en show ?thesis by simp
  qed
qed

lemma encode_passes_spans:
  "\<exists>spans. fst (encode_passes sm i ps cmd s) = concat spans \<and> length spans = length ps
     \<and> (\<forall>k<length ps. is_pass_span (i + k) (spans ! k))"
proof (induction ps arbitrary: i cmd s)
  case Nil
  show ?case by simp
next
  case (Cons p ps)
  let ?r = "encode_pass sm i p cmd s"
  from Cons.IH[of "Suc i" "fst (snd ?r)" "snd (snd ?r)"] obtain spans where
    sp: "fst (encode_passes sm (Suc i) ps (fst (snd ?r)) (snd (snd ?r))) = concat spans"
      "length spans = length ps" "\<forall>k<length ps. is_pass_span (Suc i + k) (spans ! k)"
    by blast
  have "fst (encode_passes sm i (p # ps) cmd s) = concat (fst ?r # spans)"
    using sp(1) by (simp add: Let_def split_beta)
  moreover have "length (fst ?r # spans) = length (p # ps)" using sp(2) by simp
  moreover have "\<forall>k<length (p # ps). is_pass_span (i + k) ((fst ?r # spans) ! k)"
  proof (intro allI impI)
    fix k assume "k < length (p # ps)"
    then show "is_pass_span (i + k) ((fst ?r # spans) ! k)"
    proof (cases k)
      case 0
      then show ?thesis using encode_pass_span[of i sm p cmd s] by simp
    next
      case (Suc k')
      with \<open>k < length (p # ps)\<close> have "k' < length ps" by simp
      with sp(3) have "is_pass_span (Suc i + k') (spans ! k')" by simp
      with Suc show ?thesis by simp
    qed
  qed
  ultimately show ?case by (intro exI[of _ "fst ?r # spans"] conjI)
qed

text \<open>
  C1. For every input pass list and every store, the render queue that \<open>build\<close> returns is
  the concatenation of one span for each pass of the final pass list, in the order of that
  list, followed by one command of type \<open>PRESENT\<close>. The span of the pass at position \<open>i\<close>
  is one \<open>PASS_START\<close> of pass \<open>i\<close>, then \<open>DRAW\<close> commands of pass \<open>i\<close> only, then one
  \<open>PASS_END\<close> of pass \<open>i\<close>. No command of a span has type \<open>PRESENT\<close>, so the queue holds
  exactly one \<open>PRESENT\<close>, its last command.
\<close>

theorem build_queue_structure:
  "\<exists>spans present.
     fst (build render_passes s) = concat spans @ [present]
     \<and> length spans = length (fst (snd (build render_passes s)))
     \<and> (\<forall>i<length spans. is_pass_span i (spans ! i))
     \<and> rc_type present = PRESENT
     \<and> (\<forall>c \<in> set (concat spans). rc_type c \<noteq> PRESENT)"
proof -
  obtain initial pre sm s1 where inj: "inject render_passes [] Map.empty s = (initial, pre, sm, s1)"
    by (metis prod_cases4)
  obtain final s2 where exp: "add_post_processing_passes (pre @ initial) [] s1 = (final, s2)"
    by (metis surj_pair)
  obtain queue cmd s3 where enc: "encode_passes sm 0 final default_command s2 = (queue, cmd, s3)"
    by (metis prod_cases3)
  have b: "build render_passes s = (queue @ [cmd\<lparr>rc_type := PRESENT\<rparr>], final, s3)"
    by (simp add: build_def inj exp enc)
  from encode_passes_spans[of sm 0 final default_command s2] enc obtain spans where
    sp: "queue = concat spans" "length spans = length final"
      "\<forall>k<length final. is_pass_span k (spans ! k)"
    by auto
  have "rc_type c \<noteq> PRESENT" if "c \<in> set (concat spans)" for c
  proof -
    from that obtain xs where xs: "xs \<in> set spans" "c \<in> set xs" by auto
    from xs(1) obtain k where "k < length spans" "spans ! k = xs"
      by (auto simp: in_set_conv_nth)
    with xs(2) have k: "k < length spans" "c \<in> set (spans ! k)" by simp_all
    from k(1) sp(2,3) have "is_pass_span k (spans ! k)" by simp
    from is_pass_span_types[OF this k(2)] show ?thesis .
  qed
  with b sp show ?thesis
    by (intro exI[of _ spans] exI[of _ "cmd\<lparr>rc_type := PRESENT\<rparr>"]) simp
qed

theorem build_queue_structure_witness:
  "length (fst (snd (build [example_pass] example_world))) = 2
   \<and> (\<exists>spans present.
        fst (build [example_pass] example_world) = concat spans @ [present]
        \<and> length spans = 2
        \<and> is_pass_span 0 (spans ! 0) \<and> is_pass_span 1 (spans ! 1)
        \<and> rc_type present = PRESENT)"
proof -
  have len: "length (fst (snd (build [example_pass] example_world))) = 2"
    by code_simp
  from build_queue_structure[of "[example_pass]" example_world] obtain spans present where
    sp: "fst (build [example_pass] example_world) = concat spans @ [present]"
      "length spans = length (fst (snd (build [example_pass] example_world)))"
      "\<forall>i<length spans. is_pass_span i (spans ! i)"
      "rc_type present = PRESENT"
    by blast
  from sp(2) len have l2: "length spans = 2" by simp
  with sp(3) have "is_pass_span 0 (spans ! 0)" "is_pass_span 1 (spans ! 1)" by simp_all
  with sp(1,4) l2 len show ?thesis by blast
qed

section \<open>What each block of a pass holds\<close>











section \<open>Light blocks, point light draws and material requests\<close>







lemma encode_sky_box_materials_eq:
  "materials (snd (snd (encode_sky_box pass cmd s))) =
     materials s @
       (if depth_only pass then []
        else case sky_box pass of
          None \<Rightarrow> []
        | Some cube_map \<Rightarrow>
            [\<lparr>mr_scene = scene pass,
              mr_render_graph = length (render_graphs (scenes s (scene pass))),
              mr_entity = SingleEntity (scene pass) (length (render_graphs (scenes s (scene pass)))),
              mr_target = colour_target pass, mr_light_type = AMBIENT,
              mr_normal = False, mr_position = False\<rparr>])"
  by (simp add: encode_sky_box_def Let_def split_beta create_render_graph_def create_entity_def
        create_material_def split: option.splits)

lemma encode_blocks_scenes:
  "scenes (snd (snd (encode_ambient sm pass cmd s))) = scenes s"
  "scenes (snd (snd (encode_point sm pass cmd s))) = scenes s"
  "scenes (snd (snd (encode_directional sm pass cmd s))) = scenes s"
  by (simp_all add: encode_ambient_world encode_point_world encode_directional_world)

lemma encode_blocks_materials:
  "materials (snd (snd (encode_ambient sm pass cmd s))) =
     materials s @
       (if ambient_occlusion (post_processing_description pass) = None
        then requests_for (scene pass) AMBIENT (normal_target pass \<noteq> None)
               (position_target pass \<noteq> None) (colour_target pass) (entities (scenes s (scene pass)))
        else [])"
  "materials (snd (snd (encode_point sm pass cmd s))) =
     materials s @
       (if \<not> depth_only pass \<and> point_lights (scenes s (scene pass)) \<noteq> []
        then requests_for (scene pass) POINT (normal_target pass \<noteq> None)
               (position_target pass \<noteq> None) (colour_target pass) (entities (scenes s (scene pass)))
        else [])"
  "materials (snd (snd (encode_directional sm pass cmd s))) =
     materials s @
       (if \<not> depth_only pass \<and> directional_lights (scenes s (scene pass)) \<noteq> []
        then requests_for (scene pass) DIRECTIONAL (normal_target pass \<noteq> None)
               (position_target pass \<noteq> None) (colour_target pass) (entities (scenes s (scene pass)))
        else [])"
  by (simp_all add: encode_ambient_world encode_point_world encode_directional_world)

lemma encode_pass_materials_eq:
  "materials (snd (snd (encode_pass sm i pass cmd s))) =
     materials s @
     (if ambient_occlusion (post_processing_description pass) = None
      then requests_for (scene pass) AMBIENT (normal_target pass \<noteq> None)
             (position_target pass \<noteq> None) (colour_target pass) (entities (scenes s (scene pass)))
      else [])
     @ (if \<not> depth_only pass \<and> point_lights (scenes s (scene pass)) \<noteq> []
        then requests_for (scene pass) POINT (normal_target pass \<noteq> None)
               (position_target pass \<noteq> None) (colour_target pass) (entities (scenes s (scene pass)))
        else [])
     @ (if \<not> depth_only pass \<and> directional_lights (scenes s (scene pass)) \<noteq> []
        then requests_for (scene pass) DIRECTIONAL (normal_target pass \<noteq> None)
               (position_target pass \<noteq> None) (colour_target pass) (entities (scenes s (scene pass)))
        else [])
     @ (if depth_only pass then []
        else case sky_box pass of
          None \<Rightarrow> []
        | Some cube_map \<Rightarrow>
            [\<lparr>mr_scene = scene pass,
              mr_render_graph = length (render_graphs (scenes s (scene pass))),
              mr_entity = SingleEntity (scene pass) (length (render_graphs (scenes s (scene pass)))),
              mr_target = colour_target pass, mr_light_type = AMBIENT,
              mr_normal = False, mr_position = False\<rparr>])"
proof -
  let ?c1 = "cmd\<lparr>render_pass := Some i, rc_type := PASS_START\<rparr>"
  let ?a = "encode_ambient sm pass ?c1 s"
  let ?p = "encode_point sm pass (fst (snd ?a)) (snd (snd ?a))"
  let ?d = "encode_directional sm pass (fst (snd ?p)) (snd (snd ?p))"
  let ?k = "encode_sky_box pass (fst (snd ?d)) (snd (snd ?d))"
  have e: "snd (snd (encode_pass sm i pass cmd s)) = snd (snd ?k)"
    by (simp add: encode_pass_def Let_def split_beta)
  have sa: "scenes (snd (snd ?a)) = scenes s" by (rule encode_blocks_scenes)
  have sp: "scenes (snd (snd ?p)) = scenes s" using sa by (simp add: encode_blocks_scenes)
  have sd: "scenes (snd (snd ?d)) = scenes s" using sp by (simp add: encode_blocks_scenes)
  have "materials (snd (snd ?k)) = materials (snd (snd ?d)) @
       (if depth_only pass then []
        else case sky_box pass of
          None \<Rightarrow> []
        | Some cube_map \<Rightarrow>
            [\<lparr>mr_scene = scene pass,
              mr_render_graph = length (render_graphs (scenes s (scene pass))),
              mr_entity = SingleEntity (scene pass) (length (render_graphs (scenes s (scene pass)))),
              mr_target = colour_target pass, mr_light_type = AMBIENT,
              mr_normal = False, mr_position = False\<rparr>])"
    by (simp only: encode_sky_box_materials_eq sd)
  moreover have "materials (snd (snd ?d)) = materials (snd (snd ?p)) @
       (if \<not> depth_only pass \<and> directional_lights (scenes s (scene pass)) \<noteq> []
        then requests_for (scene pass) DIRECTIONAL (normal_target pass \<noteq> None)
               (position_target pass \<noteq> None) (colour_target pass) (entities (scenes s (scene pass)))
        else [])"
    by (simp only: encode_blocks_materials sp)
  moreover have "materials (snd (snd ?p)) = materials (snd (snd ?a)) @
       (if \<not> depth_only pass \<and> point_lights (scenes s (scene pass)) \<noteq> []
        then requests_for (scene pass) POINT (normal_target pass \<noteq> None)
               (position_target pass \<noteq> None) (colour_target pass) (entities (scenes s (scene pass)))
        else [])"
    by (simp only: encode_blocks_materials sa)
  moreover note encode_blocks_materials(1)[of sm pass ?c1 s]
  ultimately show ?thesis
    unfolding e by (simp only: append_assoc)
qed

lemma encode_pass_materials:
  "materials (snd (snd (encode_pass sm i pass cmd s))) = materials s @ pass_requests sm i pass cmd s"
  by (simp add: pass_requests_def encode_pass_materials_eq)

lemma pass_requests_eq:
  "pass_requests sm i pass cmd s =
     (if ambient_occlusion (post_processing_description pass) = None
      then requests_for (scene pass) AMBIENT (normal_target pass \<noteq> None)
             (position_target pass \<noteq> None) (colour_target pass) (entities (scenes s (scene pass)))
      else [])
     @ (if \<not> depth_only pass \<and> point_lights (scenes s (scene pass)) \<noteq> []
        then requests_for (scene pass) POINT (normal_target pass \<noteq> None)
               (position_target pass \<noteq> None) (colour_target pass) (entities (scenes s (scene pass)))
        else [])
     @ (if \<not> depth_only pass \<and> directional_lights (scenes s (scene pass)) \<noteq> []
        then requests_for (scene pass) DIRECTIONAL (normal_target pass \<noteq> None)
               (position_target pass \<noteq> None) (colour_target pass) (entities (scenes s (scene pass)))
        else [])
     @ (if depth_only pass then []
        else case sky_box pass of
          None \<Rightarrow> []
        | Some cube_map \<Rightarrow>
            [\<lparr>mr_scene = scene pass,
              mr_render_graph = length (render_graphs (scenes s (scene pass))),
              mr_entity = SingleEntity (scene pass) (length (render_graphs (scenes s (scene pass)))),
              mr_target = colour_target pass, mr_light_type = AMBIENT,
              mr_normal = False, mr_position = False\<rparr>])"
  by (simp add: pass_requests_def encode_pass_materials_eq)

text \<open>
  C10. For every pass, whatever the command object and the store when the loop body runs: the
  material callback is called, while the pass is encoded, for the requests \<open>pass_requests\<close>
  and no others; when the point light collection of the pass's scene is empty none of them has
  light type \<open>POINT\<close>, and when its directional light collection is empty none of them has
  light type \<open>DIRECTIONAL\<close>.
\<close>

theorem no_material_for_an_empty_light_collection:
  "materials (snd (snd (encode_pass sm i pass cmd s))) = materials s @ pass_requests sm i pass cmd s
   \<and> (point_lights (scenes s (scene pass)) = []
        \<longrightarrow> (\<forall>r \<in> set (pass_requests sm i pass cmd s). mr_light_type r \<noteq> POINT))
   \<and> (directional_lights (scenes s (scene pass)) = []
        \<longrightarrow> (\<forall>r \<in> set (pass_requests sm i pass cmd s). mr_light_type r \<noteq> DIRECTIONAL))"
proof -
  have "mr_light_type r \<noteq> POINT"
    if "point_lights (scenes s (scene pass)) = []" "r \<in> set (pass_requests sm i pass cmd s)" for r
    using that unfolding pass_requests_eq
    by (auto dest: requests_for_light_type split: if_splits option.splits)
  moreover have "mr_light_type r \<noteq> DIRECTIONAL"
    if "directional_lights (scenes s (scene pass)) = []" "r \<in> set (pass_requests sm i pass cmd s)" for r
    using that unfolding pass_requests_eq
    by (auto dest: requests_for_light_type split: if_splits option.splits)
  ultimately show ?thesis
    using encode_pass_materials[of sm i pass cmd s] by blast
qed

theorem no_material_for_an_empty_light_collection_witness:
  "point_lights (scenes example_world (scene example_pass)) = []
   \<and> map mr_light_type (pass_requests Map.empty 0 example_pass default_command example_world)
       = [AMBIENT, AMBIENT, DIRECTIONAL, DIRECTIONAL]
   \<and> POINT \<notin> mr_light_type ` set (pass_requests Map.empty 0 example_pass default_command example_world)
   \<and> directional_lights (scenes example_world (scene lit_pass)) = []
   \<and> map mr_light_type (pass_requests Map.empty 0 lit_pass default_command example_world)
       = [AMBIENT, AMBIENT, POINT, POINT]
   \<and> DIRECTIONAL \<notin> mr_light_type ` set (pass_requests Map.empty 0 lit_pass default_command example_world)"
proof -
  have p: "point_lights (scenes example_world (scene example_pass)) = []"
    by (simp add: example_pass_def new_pass_def example_world_def example_scene_def)
  have d: "directional_lights (scenes example_world (scene lit_pass)) = []"
    by (simp add: lit_pass_def new_pass_def example_world_def lit_scene_def)
  have m1: "map mr_light_type (pass_requests Map.empty 0 example_pass default_command example_world)
       = [AMBIENT, AMBIENT, DIRECTIONAL, DIRECTIONAL]"
    by (simp add: pass_requests_eq requests_for_def example_pass_def new_pass_def
          empty_description_def example_world_def example_scene_def)
  have m2: "map mr_light_type (pass_requests Map.empty 0 lit_pass default_command example_world)
       = [AMBIENT, AMBIENT, POINT, POINT]"
    by (simp add: pass_requests_eq requests_for_def lit_pass_def new_pass_def
          empty_description_def example_world_def lit_scene_def)
  from no_material_for_an_empty_light_collection[of Map.empty 0 example_pass default_command example_world] p
  have "POINT \<notin> mr_light_type ` set (pass_requests Map.empty 0 example_pass default_command example_world)"
    by force
  moreover
  from no_material_for_an_empty_light_collection[of Map.empty 0 lit_pass default_command example_world] d
  have "DIRECTIONAL \<notin> mr_light_type ` set (pass_requests Map.empty 0 lit_pass default_command example_world)"
    by force
  ultimately show ?thesis using p d m1 m2 by simp
qed

section \<open>Ambient occlusion pre-passes\<close>

lemma map_back_snoc: "map_back f (xs @ [x]) = xs @ [f x]"
  by (simp add: map_back_def)

lemma map_back_Nil: "map_back f [] = []"
  by (simp add: map_back_def)

lemma length_map_back: "length (map_back f xs) = length xs"
  by (cases xs rule: rev_cases) (simp_all add: map_back_def)

lemma map_back_Cons: "map_back f (x # xs) = (if xs = [] then [f x] else x # map_back f xs)"
  by (cases xs rule: rev_cases) (simp_all add: map_back_def)

lemma map_back_append: "map_back f (xs @ ys) = (if ys = [] then map_back f xs else xs @ map_back f ys)"
  by (cases ys rule: rev_cases) (simp_all add: map_back_def)

lemma add_pass_snoc:
  "add_pass cb (rps @ [p]) s =
     (ProviderTarget (length (render_targets s)),
      rps @ [p\<lparr>colour_target := Some (ProviderTarget (length (render_targets s)))\<rparr>,
             new_pass (PassDataScene (pass_data_size s)) (PassDataCamera (pass_data_size s))],
      s\<lparr>pass_data_size := pass_data_size s + 1,
        scenes := (scenes s)(PassDataScene (pass_data_size s) :=
          stage_scene (pass_data_size s) (cb (ProviderTarget (length (render_targets s))))),
        cameras := (cameras s)(PassDataCamera (pass_data_size s) := stage_camera s),
        render_targets := render_targets s @ [Plain (width s) (height s)]\<rparr>)"
  by (simp add: add_pass_def Let_def create_render_target_def create_render_graph_def
        create_entity_def empty_scene_def map_back_snoc stage_scene_def stage_camera_def)

lemma add_ambient_occlusion_passes_Some:
  assumes "ambient_occlusion (post_processing_description pass) = Some ssao"
  shows "add_ambient_occlusion_passes pass pre_process_passes s =
     (let k = length (render_targets s); n = pass_data_size s in
      (pass\<lparr>colour_target := Some (ProviderTarget (k + 3)), clear_colour := False,
            clear_depth := False\<rparr>,
       pre_process_passes @
         [pass\<lparr>post_processing_description := empty_description,
               colour_target := Some (ProviderTarget (k + 2)),
               normal_target := Some (ProviderTarget k),
               position_target := Some (ProviderTarget (k + 1)),
               depth_only := True, clear_colour := True\<rparr>,
          (new_pass (PassDataScene n) (PassDataCamera n))\<lparr>colour_target := colour_target pass\<rparr>],
       s\<lparr>pass_data_size := n + 1,
         scenes := (scenes s)(PassDataScene n :=
           stage_scene n (AmbientOcclusionNode (TextureNode (ProviderTarget (k + 2)))
             (TextureNode (ProviderTarget k)) (TextureNode (ProviderTarget (k + 1))) ssao)),
         cameras := (cameras s)(PassDataCamera n := cameras s (camera pass)),
         render_targets := render_targets s @
           [Plain (width s) (height s), Plain (width s) (height s), Plain (width s) (height s),
            Hybrid (colour_target pass) (ProviderTarget (k + 2))]\<rparr>))"
  using assms
  by (simp add: add_ambient_occlusion_passes_def Let_def create_render_target_def
        add_pass_snoc map_back_append map_back_Cons create_hybrid_render_target_def ssao_graph_def)

lemma add_ambient_occlusion_passes_None:
  "ambient_occlusion (post_processing_description pass) = None \<Longrightarrow>
     add_ambient_occlusion_passes pass pre_process_passes s = (pass, pre_process_passes, s)"
  by (simp add: add_ambient_occlusion_passes_def)

text \<open>
  C6 (amended). For every input pass that requests ambient occlusion, the injector appends two
  passes to the pre-process passes. The first is the data pass: the input pass with an empty
  post-processing description, the same camera, new full-screen normal and position targets,
  \<open>depth_only\<close> and \<open>clear_colour\<close> set; its colour target, first cleared, is set by the
  single-stage helper to the new full-screen target that the helper allocates. The second is
  the SSAO pass that the helper builds: its graph reads that target and the normal and position
  targets, and its colour target is the colour target the input pass had. The camera of the SSAO
  pass, which the helper creates orthographic, is overwritten with a copy of the input pass's
  camera. The input pass keeps its camera; its colour target becomes a hybrid target requested
  from its previous colour target and the helper's target, and its \<open>clear_colour\<close> and
  \<open>clear_depth\<close> become false.
\<close>

theorem ambient_occlusion_injection:
  assumes "ambient_occlusion (post_processing_description pass) = Some ssao"
  shows "add_ambient_occlusion_passes pass pre_process_passes s =
     (let k = length (render_targets s); n = pass_data_size s in
      (pass\<lparr>colour_target := Some (ProviderTarget (k + 3)), clear_colour := False,
            clear_depth := False\<rparr>,
       pre_process_passes @
         [pass\<lparr>post_processing_description := empty_description,
               colour_target := Some (ProviderTarget (k + 2)),
               normal_target := Some (ProviderTarget k),
               position_target := Some (ProviderTarget (k + 1)),
               depth_only := True, clear_colour := True\<rparr>,
          (new_pass (PassDataScene n) (PassDataCamera n))\<lparr>colour_target := colour_target pass\<rparr>],
       s\<lparr>pass_data_size := n + 1,
         scenes := (scenes s)(PassDataScene n :=
           stage_scene n (AmbientOcclusionNode (TextureNode (ProviderTarget (k + 2)))
             (TextureNode (ProviderTarget k)) (TextureNode (ProviderTarget (k + 1))) ssao)),
         cameras := (cameras s)(PassDataCamera n := cameras s (camera pass)),
         render_targets := render_targets s @
           [Plain (width s) (height s), Plain (width s) (height s), Plain (width s) (height s),
            Hybrid (colour_target pass) (ProviderTarget (k + 2))]\<rparr>))"
  using assms by (rule add_ambient_occlusion_passes_Some)

theorem ambient_occlusion_injection_witness:
  "ambient_occlusion (post_processing_description occlusion_pass) = Some 0
   \<and> fst (add_ambient_occlusion_passes occlusion_pass [] example_world) =
       occlusion_pass\<lparr>colour_target := Some (ProviderTarget 3), clear_colour := False,
                      clear_depth := False\<rparr>
   \<and> fst (snd (add_ambient_occlusion_passes occlusion_pass [] example_world)) =
       [occlusion_pass\<lparr>post_processing_description := empty_description,
                       colour_target := Some (ProviderTarget 2),
                       normal_target := Some (ProviderTarget 0),
                       position_target := Some (ProviderTarget 1),
                       depth_only := True, clear_colour := True\<rparr>,
        (new_pass (PassDataScene 0) (PassDataCamera 0))\<lparr>colour_target := Some (CallerTarget 5)\<rparr>]
   \<and> render_targets (snd (snd (add_ambient_occlusion_passes occlusion_pass [] example_world))) =
       [Plain 800 600, Plain 800 600, Plain 800 600,
        Hybrid (Some (CallerTarget 5)) (ProviderTarget 2)]
   \<and> cameras (snd (snd (add_ambient_occlusion_passes occlusion_pass [] example_world)))
         (PassDataCamera 0) = cameras example_world (CallerCamera 0)"
proof -
  have h: "ambient_occlusion (post_processing_description occlusion_pass) = Some 0"
    by (simp add: occlusion_pass_def)
  have c: "colour_target occlusion_pass = Some (CallerTarget 5)"
    "camera occlusion_pass = CallerCamera 0"
    by (simp_all add: occlusion_pass_def example_pass_def new_pass_def)
  have w: "render_targets example_world = []" "pass_data_size example_world = 0"
    "width example_world = 800" "height example_world = 600"
    by (simp_all add: example_world_def)
  from ambient_occlusion_injection[OF h, of "[]" example_world] h
  show ?thesis
    by (simp add: Let_def c w)
qed

text \<open>
  C6 as stated fails: the data pass does not stay without a colour target. In the example the
  injector leaves the shadow pass, the data pass (position 1) and the SSAO pass (position 2) in
  the pre-process passes. The data pass renders its colour to the target that the helper
  allocated, which is also the second source of the hybrid target; the SSAO pass renders to the
  colour target the input pass had.
\<close>

theorem occlusion_data_pass_has_colour_target:
  "depth_only (fst (snd (inject [occlusion_pass] [] Map.empty example_world)) ! 1)
   \<and> normal_target (fst (snd (inject [occlusion_pass] [] Map.empty example_world)) ! 1)
       = Some (ProviderTarget 1)
   \<and> colour_target (fst (snd (inject [occlusion_pass] [] Map.empty example_world)) ! 1)
       = Some (ProviderTarget 3)
   \<and> colour_target (fst (snd (inject [occlusion_pass] [] Map.empty example_world)) ! 2)
       = Some (CallerTarget 5)
   \<and> render_targets (snd (snd (snd (inject [occlusion_pass] [] Map.empty example_world)))) ! 4
       = Hybrid (Some (CallerTarget 5)) (ProviderTarget 3)"
proof -
  have h: "ambient_occlusion (post_processing_description occlusion_pass) = Some 0"
    by (simp add: occlusion_pass_def)
  have sc: "directional_lights (scenes example_world (scene occlusion_pass)) = [7]"
    by (simp add: occlusion_pass_def example_pass_def new_pass_def example_world_def
          example_scene_def)
  have cs: "casts_shadows example_world 7"
    by (simp add: example_world_def)
  have c: "colour_target occlusion_pass = Some (CallerTarget 5)"
    by (simp add: occlusion_pass_def)
  have w: "render_targets example_world = []"
    by (simp add: example_world_def)
  show ?thesis
    by (simp add: inject_pass_def sc cs create_render_target_def Let_def
          add_ambient_occlusion_passes_Some[OF h] c w)
qed

section \<open>Runs of the single-stage helper\<close>

lemma add_pass_fields:
  "width (snd (snd (add_pass cb rps s))) = width s"
  "height (snd (snd (add_pass cb rps s))) = height s"
  "casts_shadows (snd (snd (add_pass cb rps s))) = casts_shadows s"
  "receive_shadow (snd (snd (add_pass cb rps s))) = receive_shadow s"
  "materials (snd (snd (add_pass cb rps s))) = materials s"
  "pass_data_size (snd (snd (add_pass cb rps s))) = Suc (pass_data_size s)"
  "render_targets (snd (snd (add_pass cb rps s))) = render_targets s @ [Plain (width s) (height s)]"
  "fst (add_pass cb rps s) = ProviderTarget (length (render_targets s))"
  by (simp_all add: add_pass_def Let_def create_render_target_def create_render_graph_def
        create_entity_def)

lemma add_pass_scenes:
  "scenes (snd (snd (add_pass cb rps s))) =
     (scenes s)(PassDataScene (pass_data_size s) :=
        stage_scene (pass_data_size s) (cb (ProviderTarget (length (render_targets s)))))"
  by (simp add: add_pass_def Let_def create_render_target_def create_render_graph_def
        create_entity_def empty_scene_def stage_scene_def)

lemma add_pass_cameras:
  "cameras (snd (snd (add_pass cb rps s))) =
     (cameras s)(PassDataCamera (pass_data_size s) := stage_camera s)"
  by (simp add: add_pass_def Let_def create_render_target_def create_render_graph_def
        create_entity_def stage_camera_def)

lemma add_pass_passes:
  "fst (snd (add_pass cb (rps @ [p]) s)) =
     rps @ [p\<lparr>colour_target := Some (ProviderTarget (length (render_targets s)))\<rparr>,
            new_pass (PassDataScene (pass_data_size s)) (PassDataCamera (pass_data_size s))]"
  by (simp add: add_pass_snoc)

lemma add_passes_fields:
  "width (snd (add_passes cbs rps s)) = width s"
  "height (snd (add_passes cbs rps s)) = height s"
  "casts_shadows (snd (add_passes cbs rps s)) = casts_shadows s"
  "receive_shadow (snd (add_passes cbs rps s)) = receive_shadow s"
  "materials (snd (add_passes cbs rps s)) = materials s"
  "pass_data_size (snd (add_passes cbs rps s)) = pass_data_size s + length cbs"
  "render_targets (snd (add_passes cbs rps s)) =
     render_targets s @ replicate (length cbs) (Plain (width s) (height s))"
  by (induction cbs arbitrary: rps s;
      simp add: split_beta add_pass_fields replicate_append_same)+

lemma add_passes_scenes_other:
  "(\<And>j. j < length cbs \<Longrightarrow> r \<noteq> PassDataScene (pass_data_size s + j)) \<Longrightarrow>
     scenes (snd (add_passes cbs rps s)) r = scenes s r"
proof (induction cbs arbitrary: rps s)
  case Nil
  show ?case by simp
next
  case (Cons cb cbs)
  let ?a = "add_pass cb rps s"
  have "scenes (snd (add_passes cbs (fst (snd ?a)) (snd (snd ?a)))) r = scenes (snd (snd ?a)) r"
  proof (rule Cons.IH)
    fix j assume "j < length cbs"
    then have "Suc j < length (cb # cbs)" by simp
    from Cons.prems[OF this] show "r \<noteq> PassDataScene (pass_data_size (snd (snd ?a)) + j)"
      by (simp add: add_pass_fields)
  qed
  moreover have "r \<noteq> PassDataScene (pass_data_size s)"
    using Cons.prems[of 0] by simp
  ultimately show ?case
    by (simp add: split_beta add_pass_scenes)
qed

lemma add_passes_cameras_other:
  "(\<And>j. j < length cbs \<Longrightarrow> c \<noteq> PassDataCamera (pass_data_size s + j)) \<Longrightarrow>
     cameras (snd (add_passes cbs rps s)) c = cameras s c"
proof (induction cbs arbitrary: rps s)
  case Nil
  show ?case by simp
next
  case (Cons cb cbs)
  let ?a = "add_pass cb rps s"
  have "cameras (snd (add_passes cbs (fst (snd ?a)) (snd (snd ?a)))) c = cameras (snd (snd ?a)) c"
  proof (rule Cons.IH)
    fix j assume "j < length cbs"
    then have "Suc j < length (cb # cbs)" by simp
    from Cons.prems[OF this] show "c \<noteq> PassDataCamera (pass_data_size (snd (snd ?a)) + j)"
      by (simp add: add_pass_fields)
  qed
  moreover have "c \<noteq> PassDataCamera (pass_data_size s)"
    using Cons.prems[of 0] by simp
  ultimately show ?case
    by (simp add: split_beta add_pass_cameras)
qed

lemma add_passes_scenes_stage:
  "j < length cbs \<Longrightarrow>
     scenes (snd (add_passes cbs rps s)) (PassDataScene (pass_data_size s + j)) =
       stage_scene (pass_data_size s + j) ((cbs ! j) (ProviderTarget (length (render_targets s) + j)))"
proof (induction cbs arbitrary: rps s j)
  case Nil
  then show ?case by simp
next
  case (Cons cb cbs)
  let ?a = "add_pass cb rps s"
  show ?case
  proof (cases j)
    case 0
    have "scenes (snd (add_passes cbs (fst (snd ?a)) (snd (snd ?a)))) (PassDataScene (pass_data_size s))
        = scenes (snd (snd ?a)) (PassDataScene (pass_data_size s))"
      by (rule add_passes_scenes_other) (simp add: add_pass_fields)
    with 0 show ?thesis
      by (simp add: split_beta add_pass_scenes)
  next
    case (Suc j')
    with Cons.prems have "j' < length cbs" by simp
    from Cons.IH[OF this, of "fst (snd ?a)" "snd (snd ?a)"] Suc show ?thesis
      by (simp add: split_beta add_pass_fields)
  qed
qed

lemma add_passes_cameras_stage:
  "j < length cbs \<Longrightarrow>
     cameras (snd (add_passes cbs rps s)) (PassDataCamera (pass_data_size s + j)) = stage_camera s"
proof (induction cbs arbitrary: rps s j)
  case Nil
  then show ?case by simp
next
  case (Cons cb cbs)
  let ?a = "add_pass cb rps s"
  have sc: "stage_camera (snd (snd ?a)) = stage_camera s"
    by (simp add: stage_camera_def add_pass_fields)
  show ?case
  proof (cases j)
    case 0
    have "cameras (snd (add_passes cbs (fst (snd ?a)) (snd (snd ?a)))) (PassDataCamera (pass_data_size s))
        = cameras (snd (snd ?a)) (PassDataCamera (pass_data_size s))"
      by (rule add_passes_cameras_other) (simp add: add_pass_fields)
    with 0 show ?thesis
      by (simp add: split_beta add_pass_cameras)
  next
    case (Suc j')
    with Cons.prems have "j' < length cbs" by simp
    from Cons.IH[OF this, of "fst (snd ?a)" "snd (snd ?a)"] Suc sc show ?thesis
      by (simp add: split_beta add_pass_fields)
  qed
qed

lemma stage_passes_Suc:
  "stage_passes n k (Suc m) =
     (new_pass (PassDataScene n) (PassDataCamera n))
        \<lparr>colour_target := (if m = 0 then None else Some (ProviderTarget (Suc k)))\<rparr>
     # stage_passes (Suc n) (Suc k) m"
  by (simp add: stage_passes_def upt_conv_Cons map_Suc_upt[symmetric] del: upt_Suc)

lemma add_passes_passes:
  "fst (add_passes cbs (rps @ [p]) s) =
     rps @ [p\<lparr>colour_target := (if cbs = [] then colour_target p
                                  else Some (ProviderTarget (length (render_targets s))))\<rparr>]
         @ stage_passes (pass_data_size s) (length (render_targets s)) (length cbs)"
proof (induction cbs arbitrary: rps p s)
  case Nil
  show ?case by (simp add: stage_passes_def)
next
  case (Cons cb cbs)
  let ?p' = "p\<lparr>colour_target := Some (ProviderTarget (length (render_targets s)))\<rparr>"
  let ?np = "new_pass (PassDataScene (pass_data_size s)) (PassDataCamera (pass_data_size s))"
  let ?s1 = "snd (snd (add_pass cb (rps @ [p]) s))"
  have "fst (add_passes (cb # cbs) (rps @ [p]) s) = fst (add_passes cbs ((rps @ [?p']) @ [?np]) ?s1)"
    by (simp add: split_beta add_pass_passes)
  also have "\<dots> = (rps @ [?p']) @ [?np\<lparr>colour_target := (if cbs = [] then colour_target ?np
                                  else Some (ProviderTarget (length (render_targets ?s1))))\<rparr>]
         @ stage_passes (pass_data_size ?s1) (length (render_targets ?s1)) (length cbs)"
    by (rule Cons.IH)
  also have "\<dots> = rps @ [?p'] @ stage_passes (pass_data_size s) (length (render_targets s)) (length (cb # cbs))"
    by (simp add: stage_passes_Suc add_pass_fields new_pass_def)
  finally show ?case by simp
qed

section \<open>The expander as a run of the helper\<close>

lemma add_passes_append:
  "add_passes (xs @ ys) rps s =
     add_passes ys (fst (add_passes xs rps s)) (snd (add_passes xs rps s))"
  by (induction xs arbitrary: rps s) (simp_all add: split_beta)

lemma add_blur_passes_eq:
  "add_blur_passes n rps s = add_passes (replicate n blur_graph) rps s"
  by (induction n arbitrary: rps s) (simp_all add: split_beta)

lemma add_bloom_passes_eq:
  "add_bloom_passes b rps s =
     add_passes ([pass_through_graph, threshold_graph b]
                  @ replicate (unat (iterations b)) blur_graph
                  @ [composite_graph (ProviderTarget (length (render_targets s)))]) rps s"
  by (simp add: add_bloom_passes_def Let_def split_beta add_blur_passes_eq add_passes_append
        add_pass_fields)

lemma add_passes_targets_length:
  "length (render_targets (snd (add_passes cbs rps s))) = length (render_targets s) + length cbs"
  by (simp add: add_passes_fields)

lemma expand_pass_eq:
  "expand_pass pass rps s =
     (map_back (\<lambda>p. p\<lparr>colour_target := colour_target pass\<rparr>)
        (fst (add_passes (stage_callbacks (post_processing_description pass)
                (ProviderTarget (length (render_targets s)))) (rps @ [pass]) s)),
      snd (add_passes (stage_callbacks (post_processing_description pass)
                (ProviderTarget (length (render_targets s)))) (rps @ [pass]) s))"
  by (simp add: expand_pass_def stage_callbacks_def Let_def split_beta add_bloom_passes_eq
        add_passes_append split: option.splits)

section \<open>The loops of the injector\<close>

lemma add_shadow_passes_world:
  "snd (snd (add_shadow_passes pass ls pre sm s)) =
     s\<lparr>render_targets := render_targets s @
          replicate (length (filter (casts_shadows s) ls)) (Plain 1024 1024)\<rparr>"
  by (induction ls arbitrary: pre sm s)
     (simp_all add: Let_def split_beta create_render_target_def replicate_append_same)

lemma add_shadow_passes_passes:
  "fst (add_shadow_passes pass ls pre sm s) =
     pre @ map (\<lambda>(l, t). shadow_pass_for pass l t)
             (zip (filter (casts_shadows s) ls)
                  (map ProviderTarget [length (render_targets s) ..<
                     length (render_targets s) + length (filter (casts_shadows s) ls)]))"
  by (induction ls arbitrary: pre sm s)
     (simp_all add: Let_def split_beta create_render_target_def shadow_pass_for_def upt_conv_Cons
        del: upt_Suc)

lemma add_shadow_passes_table_other:
  "l \<notin> set ls \<Longrightarrow> fst (snd (add_shadow_passes pass ls pre sm s)) l = sm l"
  by (induction ls arbitrary: pre sm s)
     (auto simp: Let_def split_beta create_render_target_def)

lemma add_shadow_passes_table:
  "l \<in> set ls \<Longrightarrow> casts_shadows s l \<Longrightarrow>
     \<exists>t. fst (snd (add_shadow_passes pass ls pre sm s)) l = Some t
        \<and> (l, t) \<in> set (zip (filter (casts_shadows s) ls)
                  (map ProviderTarget [length (render_targets s) ..<
                     length (render_targets s) + length (filter (casts_shadows s) ls)]))"
proof (induction ls arbitrary: pre sm s)
  case Nil
  then show ?case by simp
next
  case (Cons l' ls)
  let ?k = "length (render_targets s)"
  show ?case
  proof (cases "casts_shadows s l'")
    case False
    with Cons.prems have "l \<in> set ls" by auto
    from Cons.IH[OF this Cons.prems(2), of pre sm] False show ?thesis by simp
  next
    case True
    let ?s1 = "s\<lparr>render_targets := render_targets s @ [Plain 1024 1024]\<rparr>"
    let ?pre1 = "pre @ [shadow_pass_for pass l' (ProviderTarget ?k)]"
    let ?sm1 = "sm(l' \<mapsto> ProviderTarget ?k)"
    have step: "add_shadow_passes pass (l' # ls) pre sm s = add_shadow_passes pass ls ?pre1 ?sm1 ?s1"
      using True by (simp add: Let_def create_render_target_def shadow_pass_for_def)
    have zipeq: "zip (filter (casts_shadows s) (l' # ls))
            (map ProviderTarget [?k ..< ?k + length (filter (casts_shadows s) (l' # ls))]) =
          (l', ProviderTarget ?k) #
          zip (filter (casts_shadows ?s1) ls)
            (map ProviderTarget [length (render_targets ?s1) ..<
               length (render_targets ?s1) + length (filter (casts_shadows ?s1) ls)])"
      using True by (simp add: upt_conv_Cons del: upt_Suc)
    show ?thesis
    proof (cases "l \<in> set ls")
      case True
      have "casts_shadows ?s1 l" using Cons.prems(2) by simp
      from Cons.IH[OF True this, of ?pre1 ?sm1] obtain t where
        t: "fst (snd (add_shadow_passes pass ls ?pre1 ?sm1 ?s1)) l = Some t"
           "(l, t) \<in> set (zip (filter (casts_shadows ?s1) ls)
              (map ProviderTarget [length (render_targets ?s1) ..<
                 length (render_targets ?s1) + length (filter (casts_shadows ?s1) ls)]))"
        by (elim exE conjE)
      from t(2) have "(l, t) \<in> set (zip (filter (casts_shadows s) (l' # ls))
            (map ProviderTarget [?k ..< ?k + length (filter (casts_shadows s) (l' # ls))]))"
        unfolding zipeq by (rule list.set_intros(2))
      with t(1) show ?thesis
        unfolding step by (intro exI[of _ t] conjI)
    next
      case False
      with Cons.prems(1) have ll: "l = l'" by simp
      from False have "fst (snd (add_shadow_passes pass ls ?pre1 ?sm1 ?s1)) l = ?sm1 l"
        by (rule add_shadow_passes_table_other)
      with ll have a: "fst (snd (add_shadow_passes pass ls ?pre1 ?sm1 ?s1)) l = Some (ProviderTarget ?k)"
        by simp
      have "(l, ProviderTarget ?k) \<in> set (zip (filter (casts_shadows s) (l' # ls))
            (map ProviderTarget [?k ..< ?k + length (filter (casts_shadows s) (l' # ls))]))"
        unfolding zipeq ll by (rule list.set_intros(1))
      with a show ?thesis
        unfolding step by (intro exI[of _ "ProviderTarget ?k"] conjI)
    qed
  qed
qed

lemma inject_pass_eq:
  "inject_pass pass pre sm s =
     (let sh = add_shadow_passes pass (directional_lights (scenes s (scene pass))) pre sm s;
          ao = add_ambient_occlusion_passes pass (fst sh) (snd (snd sh))
      in (fst ao, fst (snd ao), fst (snd sh), snd (snd ao)))"
  by (simp add: inject_pass_def Let_def split_beta)

lemma add_ambient_occlusion_passes_prefix:
  "fst (snd (add_ambient_occlusion_passes pass pre s)) =
     pre @ drop (length pre) (fst (snd (add_ambient_occlusion_passes pass pre s)))
   \<and> length (fst (snd (add_ambient_occlusion_passes pass pre s))) =
       length pre + (if ambient_occlusion (post_processing_description pass) = None then 0 else 2)"
  by (cases "ambient_occlusion (post_processing_description pass)")
     (simp_all add: add_ambient_occlusion_passes_None add_ambient_occlusion_passes_Some Let_def)

lemma add_ambient_occlusion_passes_targets:
  "\<exists>ts. render_targets (snd (snd (add_ambient_occlusion_passes pass pre s))) = render_targets s @ ts"
  by (cases "ambient_occlusion (post_processing_description pass)")
     (simp_all add: add_ambient_occlusion_passes_None add_ambient_occlusion_passes_Some Let_def)

section \<open>The final pass order\<close>

lemma add_pass_world_indep:
  "snd (snd (add_pass cb rps s)) = snd (snd (add_pass cb [] s))"
  by (simp add: add_pass_def Let_def split_beta)

lemma add_passes_world_indep:
  "snd (add_passes cbs rps s) = snd (add_passes cbs [] s)"
proof (induction cbs arbitrary: rps s)
  case Nil
  show ?case by simp
next
  case (Cons cb cbs)
  have "snd (add_passes (cb # cbs) rps s) =
      snd (add_passes cbs (fst (snd (add_pass cb rps s))) (snd (snd (add_pass cb [] s))))"
    using add_pass_world_indep[of cb rps s] by (simp add: split_beta)
  also have "\<dots> = snd (add_passes cbs [] (snd (snd (add_pass cb [] s))))"
    by (rule Cons.IH)
  also have "\<dots> = snd (add_passes cbs (fst (snd (add_pass cb [] s))) (snd (snd (add_pass cb [] s))))"
    by (rule Cons.IH[symmetric])
  finally show ?case by (simp add: split_beta)
qed

lemma expand_pass_append:
  "expand_pass pass rps s = (rps @ fst (expand_pass pass [] s), snd (expand_pass pass [] s))"
proof -
  let ?cbs = "stage_callbacks (post_processing_description pass)
                (ProviderTarget (length (render_targets s)))"
  have w: "snd (add_passes ?cbs (rps @ [pass]) s) = snd (add_passes ?cbs ([] @ [pass]) s)"
    using add_passes_world_indep[of ?cbs "rps @ [pass]" s]
      add_passes_world_indep[of ?cbs "[] @ [pass]" s] by simp
  show ?thesis
    unfolding expand_pass_eq[of pass rps s] expand_pass_eq[of pass "[]" s] w
      add_passes_passes[of ?cbs rps pass s] add_passes_passes[of ?cbs "[]" pass s]
    by (simp add: map_back_append map_back_Cons)
qed

lemma add_post_processing_passes_append:
  "add_post_processing_passes ps rps s =
     (rps @ fst (add_post_processing_passes ps [] s), snd (add_post_processing_passes ps [] s))"
proof (induction ps arbitrary: rps s)
  case Nil
  show ?case by simp
next
  case (Cons p ps)
  let ?ex = "fst (expand_pass p [] s)" and ?s1 = "snd (expand_pass p [] s)"
  have "add_post_processing_passes (p # ps) rps s = add_post_processing_passes ps (rps @ ?ex) ?s1"
    using expand_pass_append[of p rps s] by (simp add: split_beta)
  also have "\<dots> = ((rps @ ?ex) @ fst (add_post_processing_passes ps [] ?s1),
                     snd (add_post_processing_passes ps [] ?s1))"
    by (rule Cons.IH)
  finally have a: "add_post_processing_passes (p # ps) rps s =
      (rps @ ?ex @ fst (add_post_processing_passes ps [] ?s1),
       snd (add_post_processing_passes ps [] ?s1))"
    by simp
  have "add_post_processing_passes (p # ps) [] s = add_post_processing_passes ps ?ex ?s1"
    by (simp add: split_beta)
  also have "\<dots> = (?ex @ fst (add_post_processing_passes ps [] ?s1),
                     snd (add_post_processing_passes ps [] ?s1))"
    by (rule Cons.IH)
  finally have b: "add_post_processing_passes (p # ps) [] s =
      (?ex @ fst (add_post_processing_passes ps [] ?s1),
       snd (add_post_processing_passes ps [] ?s1))" .
  show ?case unfolding a b by simp
qed

lemma add_post_processing_passes_app:
  "add_post_processing_passes (xs @ ys) rps s =
     add_post_processing_passes ys (fst (add_post_processing_passes xs rps s))
       (snd (add_post_processing_passes xs rps s))"
  by (induction xs arbitrary: rps s) (simp_all add: split_beta)

lemma stage_callbacks_empty: "stage_callbacks empty_description t = []"
  by (simp add: stage_callbacks_def empty_description_def)

lemma expand_pass_plain:
  "post_processing_description pass = empty_description \<Longrightarrow> expand_pass pass rps s = (rps @ [pass], s)"
  by (simp add: expand_pass_eq stage_callbacks_empty map_back_append map_back_Cons)

lemma add_post_processing_passes_plain:
  "list_all (\<lambda>p. post_processing_description p = empty_description) xs \<Longrightarrow>
     add_post_processing_passes xs rps s = (rps @ xs, s)"
  by (induction xs arbitrary: rps s) (simp_all add: expand_pass_plain)

lemma add_shadow_passes_plain:
  "list_all (\<lambda>p. post_processing_description p = empty_description) pre \<Longrightarrow>
     list_all (\<lambda>p. post_processing_description p = empty_description)
       (fst (add_shadow_passes pass ls pre sm s))"
  by (auto simp: add_shadow_passes_passes list_all_iff shadow_pass_for_def split_beta)

lemma add_ambient_occlusion_passes_plain:
  "list_all (\<lambda>p. post_processing_description p = empty_description) pre \<Longrightarrow>
     list_all (\<lambda>p. post_processing_description p = empty_description)
       (fst (snd (add_ambient_occlusion_passes pass pre s)))"
  by (cases "ambient_occlusion (post_processing_description pass)")
     (simp_all add: add_ambient_occlusion_passes_None add_ambient_occlusion_passes_Some Let_def
        new_pass_def)

lemma inject_pass_plain:
  "list_all (\<lambda>p. post_processing_description p = empty_description) pre \<Longrightarrow>
     list_all (\<lambda>p. post_processing_description p = empty_description)
       (fst (snd (inject_pass pass pre sm s)))"
  by (simp add: inject_pass_eq Let_def add_shadow_passes_plain add_ambient_occlusion_passes_plain)

lemma inject_plain:
  "list_all (\<lambda>p. post_processing_description p = empty_description) pre \<Longrightarrow>
     list_all (\<lambda>p. post_processing_description p = empty_description)
       (fst (snd (inject ps pre sm s)))"
proof (induction ps arbitrary: pre sm s)
  case Nil
  then show ?case by simp
next
  case (Cons p ps)
  let ?r = "inject_pass p pre sm s"
  have "list_all (\<lambda>p. post_processing_description p = empty_description) (fst (snd ?r))"
    using Cons.prems by (rule inject_pass_plain)
  from Cons.IH[OF this, of "fst (snd (snd ?r))" "snd (snd (snd ?r))"] show ?case
    by (simp add: split_beta)
qed

lemma build_final_passes:
  "fst (snd (build render_passes s)) =
     fst (snd (inject render_passes [] Map.empty s))
     @ fst (add_post_processing_passes (fst (inject render_passes [] Map.empty s)) []
              (snd (snd (snd (inject render_passes [] Map.empty s)))))"
proof -
  let ?i = "inject render_passes [] Map.empty s"
  have plain: "list_all (\<lambda>p. post_processing_description p = empty_description) (fst (snd ?i))"
    by (rule inject_plain) simp
  have "fst (snd (build render_passes s)) =
      fst (add_post_processing_passes (fst (snd ?i) @ fst ?i) [] (snd (snd (snd ?i))))"
    by (simp add: build_def split_beta)
  also have "\<dots> = fst (add_post_processing_passes (fst ?i) (fst (snd ?i)) (snd (snd (snd ?i))))"
    unfolding add_post_processing_passes_app
    using add_post_processing_passes_plain[OF plain, of "[]" "snd (snd (snd ?i))"] by simp
  also have "\<dots> = fst (snd ?i) @ fst (add_post_processing_passes (fst ?i) [] (snd (snd (snd ?i))))"
    using add_post_processing_passes_append[of "fst ?i" "fst (snd ?i)" "snd (snd (snd ?i))"] by simp
  finally show ?thesis .
qed

section \<open>Shadow pre-passes\<close>

text \<open>
  C5. The body of the injector's loop, run on an input pass, appends to the pre-process passes
  one shadow pass for each directional light of the pass's scene that casts shadows, in the
  order of the lights, before the ambient occlusion passes of that input pass (two, or none).
  The shadow pass for a light is the input pass with the post-processing description emptied,
  the camera set to the light's shadow camera, the colour target set to a target that the render
  target callback returns for this light on a request of 1024 by 1024, the normal and position
  targets cleared, and \<open>depth_only\<close>, \<open>clear_colour\<close> and \<open>clear_depth\<close> set. After the loop
  body the shadow map table maps each such light to the target of a shadow pass made for it.
  The final pass list of \<open>build\<close> is the pre-process passes of all input passes followed by
  what the expander makes of the input passes themselves, so every pre-process pass comes
  before every input pass.
\<close>

theorem shadow_pass_injection:
  "(let ls = filter (casts_shadows s) (directional_lights (scenes s (scene pass)));
        k = length (render_targets s);
        targets = map ProviderTarget [k..<k + length ls];
        r = inject_pass pass pre sm s
    in take (length pre + length ls) (fst (snd r)) =
         pre @ map (\<lambda>(l, t). pass\<lparr>post_processing_description := empty_description,
                                  camera := ShadowCamera l, colour_target := Some t,
                                  normal_target := None, position_target := None,
                                  depth_only := True, clear_colour := True,
                                  clear_depth := True\<rparr>) (zip ls targets)
       \<and> length (fst (snd r)) =
           length pre + length ls
           + (if ambient_occlusion (post_processing_description pass) = None then 0 else 2)
       \<and> take (length ls) (drop k (render_targets (snd (snd (snd r))))) =
           replicate (length ls) (Plain 1024 1024)
       \<and> (\<forall>l \<in> set ls. \<exists>t. fst (snd (snd r)) l = Some t \<and> (l, t) \<in> set (zip ls targets)))
   \<and> fst (snd (build render_passes s)) =
       fst (snd (inject render_passes [] Map.empty s))
       @ fst (add_post_processing_passes (fst (inject render_passes [] Map.empty s)) []
                (snd (snd (snd (inject render_passes [] Map.empty s)))))"
proof -
  let ?dl = "directional_lights (scenes s (scene pass))"
  let ?ls = "filter (casts_shadows s) ?dl"
  let ?k = "length (render_targets s)"
  let ?targets = "map ProviderTarget [?k..<?k + length ?ls]"
  let ?sh = "add_shadow_passes pass ?dl pre sm s"
  let ?ao = "add_ambient_occlusion_passes pass (fst ?sh) (snd (snd ?sh))"
  let ?r = "inject_pass pass pre sm s"
  have r: "fst (snd ?r) = fst (snd ?ao)" "fst (snd (snd ?r)) = fst (snd ?sh)"
    "snd (snd (snd ?r)) = snd (snd ?ao)"
    by (simp_all add: inject_pass_eq Let_def)
  have sh: "fst ?sh = pre @ map (\<lambda>(l, t). pass\<lparr>post_processing_description := empty_description,
                                  camera := ShadowCamera l, colour_target := Some t,
                                  normal_target := None, position_target := None,
                                  depth_only := True, clear_colour := True,
                                  clear_depth := True\<rparr>) (zip ?ls ?targets)"
    using add_shadow_passes_passes[of pass ?dl pre sm s] unfolding shadow_pass_for_def .
  then have lsh: "length (fst ?sh) = length pre + length ?ls" by simp
  from add_ambient_occlusion_passes_prefix[of pass "fst ?sh" "snd (snd ?sh)"]
  have ao: "fst (snd ?ao) = fst ?sh @ drop (length (fst ?sh)) (fst (snd ?ao))"
    and lao: "length (fst (snd ?ao)) = length (fst ?sh)
        + (if ambient_occlusion (post_processing_description pass) = None then 0 else 2)"
    by simp_all
  have "take (length pre + length ?ls) (fst (snd ?ao)) = fst ?sh"
    by (subst ao) (simp add: lsh)
  then have c1: "take (length pre + length ?ls) (fst (snd ?r)) =
         pre @ map (\<lambda>(l, t). pass\<lparr>post_processing_description := empty_description,
                                  camera := ShadowCamera l, colour_target := Some t,
                                  normal_target := None, position_target := None,
                                  depth_only := True, clear_colour := True,
                                  clear_depth := True\<rparr>) (zip ?ls ?targets)"
    unfolding r sh .
  have c2: "length (fst (snd ?r)) = length pre + length ?ls
           + (if ambient_occlusion (post_processing_description pass) = None then 0 else 2)"
    unfolding r lao lsh by simp
  obtain ts where ts: "render_targets (snd (snd ?ao)) = render_targets (snd (snd ?sh)) @ ts"
    using add_ambient_occlusion_passes_targets[of pass "fst ?sh" "snd (snd ?sh)"] by (elim exE)
  have c3: "take (length ?ls) (drop ?k (render_targets (snd (snd (snd ?r))))) =
           replicate (length ?ls) (Plain 1024 1024)"
    unfolding r ts by (simp add: add_shadow_passes_world)
  have c4: "\<exists>t. fst (snd (snd ?r)) l = Some t \<and> (l, t) \<in> set (zip ?ls ?targets)"
    if "l \<in> set ?ls" for l
  proof -
    from that have "l \<in> set ?dl" "casts_shadows s l" by simp_all
    from add_shadow_passes_table[OF this, of pass pre sm] show ?thesis
      unfolding r .
  qed
  from c1 c2 c3 c4 build_final_passes[of render_passes s] show ?thesis
    unfolding Let_def by (intro conjI ballI)
qed


theorem shadow_pass_injection_witness:
  "filter (casts_shadows example_world)
      (directional_lights (scenes example_world (scene example_pass))) = [7]
   \<and> fst (snd (inject_pass example_pass [] Map.empty example_world)) =
       [example_pass\<lparr>post_processing_description := empty_description,
                     camera := ShadowCamera 7, colour_target := Some (ProviderTarget 0),
                     normal_target := None, position_target := None,
                     depth_only := True, clear_colour := True, clear_depth := True\<rparr>]
   \<and> take 1 (render_targets (snd (snd (snd (inject_pass example_pass [] Map.empty example_world)))))
       = [Plain 1024 1024]
   \<and> fst (snd (snd (inject_pass example_pass [] Map.empty example_world))) 7
       = Some (ProviderTarget 0)
   \<and> fst (snd (build [example_pass] example_world)) =
       [example_pass\<lparr>post_processing_description := empty_description,
                     camera := ShadowCamera 7, colour_target := Some (ProviderTarget 0),
                     normal_target := None, position_target := None,
                     depth_only := True, clear_colour := True, clear_depth := True\<rparr>,
        example_pass]"
proof -
  let ?r = "inject_pass example_pass [] Map.empty example_world"
  have ls: "filter (casts_shadows example_world)
      (directional_lights (scenes example_world (scene example_pass))) = [7]"
    by (simp add: example_world_def example_pass_def new_pass_def example_scene_def)
  have k: "length (render_targets example_world) = 0"
    by (simp add: example_world_def)
  have ao: "ambient_occlusion (post_processing_description example_pass) = None"
    by (simp add: example_pass_def new_pass_def empty_description_def)
  have pl: "post_processing_description example_pass = empty_description"
    by (simp add: example_pass_def new_pass_def)
  note t = shadow_pass_injection[of example_world example_pass "[]" Map.empty "[example_pass]",
      unfolded Let_def ls k ao]
  from t have len: "length (fst (snd ?r)) = 1" by simp
  from t len have c1: "fst (snd ?r) =
       [example_pass\<lparr>post_processing_description := empty_description,
                     camera := ShadowCamera 7, colour_target := Some (ProviderTarget 0),
                     normal_target := None, position_target := None,
                     depth_only := True, clear_colour := True, clear_depth := True\<rparr>]"
    by simp
  from t have c2: "take 1 (render_targets (snd (snd (snd ?r)))) = [Plain 1024 1024]"
    by simp
  from t have c3: "fst (snd (snd ?r)) 7 = Some (ProviderTarget 0)"
    by simp
  have inj: "inject [example_pass] [] Map.empty example_world =
      ([fst ?r], fst (snd ?r), fst (snd (snd ?r)), snd (snd (snd ?r)))"
    by (simp add: split_beta)
  have f: "fst ?r = example_pass"
    by (simp add: inject_pass_eq Let_def add_ambient_occlusion_passes_None[OF ao])
  from t have "fst (snd (build [example_pass] example_world)) =
      fst (snd ?r) @ fst (add_post_processing_passes [example_pass] [] (snd (snd (snd ?r))))"
    unfolding inj f by simp
  then have c4: "fst (snd (build [example_pass] example_world)) = fst (snd ?r) @ [example_pass]"
    by (simp add: expand_pass_plain[OF pl])
  from ls c1 c2 c3 c4 show ?thesis by simp
qed

section \<open>The passes and scenes of an expansion\<close>

lemma nth_map_back:
  "j < length xs \<Longrightarrow> map_back f xs ! j = (if Suc j = length xs then f (xs ! j) else xs ! j)"
  by (cases xs rule: rev_cases) (auto simp: map_back_def nth_append)

lemma length_stage_passes: "length (stage_passes n k m) = m"
  by (simp add: stage_passes_def)

lemma nth_stage_passes:
  "j < m \<Longrightarrow> stage_passes n k m ! j =
     (new_pass (PassDataScene (n + j)) (PassDataCamera (n + j)))
        \<lparr>colour_target := (if Suc j < m then Some (ProviderTarget (k + Suc j)) else None)\<rparr>"
  by (simp add: stage_passes_def del: upt_Suc)

lemma expand_pass_passes:
  "fst (expand_pass pass rps s) =
     rps @ map_back (\<lambda>p. p\<lparr>colour_target := colour_target pass\<rparr>)
       (pass\<lparr>colour_target :=
               (if stage_callbacks (post_processing_description pass)
                     (ProviderTarget (length (render_targets s))) = []
                then colour_target pass
                else Some (ProviderTarget (length (render_targets s))))\<rparr>
        # stage_passes (pass_data_size s) (length (render_targets s))
            (length (stage_callbacks (post_processing_description pass)
                (ProviderTarget (length (render_targets s))))))"
  by (simp add: expand_pass_eq add_passes_passes map_back_append)

lemma expand_pass_length:
  "length (fst (expand_pass pass rps s)) =
     length rps + 1 + length (stage_callbacks (post_processing_description pass)
                (ProviderTarget (length (render_targets s))))"
  by (simp add: expand_pass_passes length_map_back length_stage_passes)

lemma expand_pass_head:
  assumes "stage_callbacks (post_processing_description pass)
             (ProviderTarget (length (render_targets s))) \<noteq> []"
  shows "fst (expand_pass pass rps s) ! length rps =
     pass\<lparr>colour_target := Some (ProviderTarget (length (render_targets s)))\<rparr>"
proof -
  let ?m = "length (stage_callbacks (post_processing_description pass)
                (ProviderTarget (length (render_targets s))))"
  from assms have "0 < ?m" by simp
  then have ne: "stage_passes (pass_data_size s) (length (render_targets s)) ?m \<noteq> []"
    using length_stage_passes[of "pass_data_size s" "length (render_targets s)" ?m]
    by (metis length_0_conv less_numeral_extra(3))
  show ?thesis
    unfolding expand_pass_passes using assms ne
    by (simp add: nth_append map_back_Cons)
qed

lemma expand_pass_stage:
  assumes "j < length (stage_callbacks (post_processing_description pass)
                (ProviderTarget (length (render_targets s))))"
  shows "fst (expand_pass pass rps s) ! (length rps + 1 + j) =
     (new_pass (PassDataScene (pass_data_size s + j)) (PassDataCamera (pass_data_size s + j)))
        \<lparr>colour_target :=
           (if Suc j < length (stage_callbacks (post_processing_description pass)
                (ProviderTarget (length (render_targets s))))
            then Some (ProviderTarget (length (render_targets s) + Suc j))
            else colour_target pass)\<rparr>"
proof -
  let ?m = "length (stage_callbacks (post_processing_description pass)
                (ProviderTarget (length (render_targets s))))"
  let ?xs = "pass\<lparr>colour_target :=
               (if stage_callbacks (post_processing_description pass)
                     (ProviderTarget (length (render_targets s))) = []
                then colour_target pass
                else Some (ProviderTarget (length (render_targets s))))\<rparr>
        # stage_passes (pass_data_size s) (length (render_targets s)) ?m"
  have l: "length ?xs = Suc ?m" by (simp add: length_stage_passes)
  have "fst (expand_pass pass rps s) ! (length rps + 1 + j) =
      map_back (\<lambda>p. p\<lparr>colour_target := colour_target pass\<rparr>) ?xs ! Suc j"
    by (simp add: expand_pass_passes nth_append)
  also have "\<dots> = (if Suc (Suc j) = length ?xs
      then (?xs ! Suc j)\<lparr>colour_target := colour_target pass\<rparr> else ?xs ! Suc j)"
    using assms l by (intro nth_map_back) simp
  also have "?xs ! Suc j = stage_passes (pass_data_size s) (length (render_targets s)) ?m ! j"
    by simp
  finally show ?thesis
    using assms by (auto simp: l nth_stage_passes length_stage_passes)
qed

lemma expand_pass_scene:
  assumes "j < length (stage_callbacks (post_processing_description pass)
                (ProviderTarget (length (render_targets s))))"
  shows "scenes (snd (expand_pass pass rps s)) (PassDataScene (pass_data_size s + j)) =
     stage_scene (pass_data_size s + j)
       ((stage_callbacks (post_processing_description pass)
           (ProviderTarget (length (render_targets s))) ! j)
          (ProviderTarget (length (render_targets s) + j)))"
  using add_passes_scenes_stage[OF assms, of "rps @ [pass]" s] by (simp add: expand_pass_eq)

lemma last_map_back: "xs \<noteq> [] \<Longrightarrow> last (map_back f xs) = f (last xs)"
  by (cases xs rule: rev_cases) (simp_all add: map_back_def)

lemma map_back_eq_Nil: "map_back f xs = [] \<longleftrightarrow> xs = []"
  by (cases xs rule: rev_cases) (simp_all add: map_back_def)

lemma expand_pass_last:
  "colour_target (last (fst (expand_pass pass rps s))) = colour_target pass"
  unfolding expand_pass_passes
  by (simp add: map_back_eq_Nil last_map_back del: last.simps)

section \<open>Bloom stages\<close>

lemma length_stage_callbacks:
  "length (stage_callbacks d t) =
     (case bloom d of None \<Rightarrow> 0 | Some b \<Rightarrow> unat (iterations b) + 3)
     + (if colour_adjust d = None then 0 else 1) + (if anti_aliasing d then 1 else 0)"
  by (simp add: stage_callbacks_def split: option.splits)

lemma nth_stage_callbacks:
  assumes "bloom d = Some b"
  shows "stage_callbacks d t ! 0 = pass_through_graph"
    and "stage_callbacks d t ! 1 = threshold_graph b"
    and "i < unat (iterations b) \<Longrightarrow> stage_callbacks d t ! (2 + i) = blur_graph"
    and "stage_callbacks d t ! (unat (iterations b) + 2) = composite_graph t"
  using assms by (simp_all add: stage_callbacks_def nth_append nth_Cons')

lemma expand_pass_bloom:
  assumes "bloom (post_processing_description pass) = Some b"
  shows "(let n = unat (iterations b);
           k = length (render_targets s);
           q = pass_data_size s;
           m = n + 3
               + (if colour_adjust (post_processing_description pass) = None then 0 else 1)
               + (if anti_aliasing (post_processing_description pass) then 1 else 0);
           out = fst (expand_pass pass rps s);
           s' = snd (expand_pass pass rps s)
       in length out = length rps + 1 + m
        \<and> take (length rps) out = rps
        \<and> out ! length rps = pass\<lparr>colour_target := Some (ProviderTarget k)\<rparr>
        \<and> (\<forall>j<m. out ! (length rps + 1 + j) =
              (new_pass (PassDataScene (q + j)) (PassDataCamera (q + j)))
                 \<lparr>colour_target := (if Suc j < m then Some (ProviderTarget (k + Suc j))
                                     else colour_target pass)\<rparr>)
        \<and> scenes s' (PassDataScene q) =
            stage_scene q (RenderNode (Some (TextureNode (ProviderTarget k))))
        \<and> scenes s' (PassDataScene (q + 1)) =
            stage_scene (q + 1) (RenderNode (Some (ConditionalNode
              (ArithmeticNode (TextureNode (ProviderTarget (k + 1)))
                 (ValueColour 0.2126 0.7152 0.0722 0.0) DOT)
              (ValueFloat (threshold b))
              (TextureNode (ProviderTarget (k + 1)))
              (ValueColour 0.0 0.0 0.0 1.0)
              GREATER)))
        \<and> (\<forall>i<n. scenes s' (PassDataScene (q + 2 + i)) =
              stage_scene (q + 2 + i)
                (RenderNode (Some (BlurNode (TextureNode (ProviderTarget (k + 2 + i)))))))
        \<and> scenes s' (PassDataScene (q + n + 2)) =
            stage_scene (q + n + 2) (RenderNode (Some (ArithmeticNode
              (TextureNode (ProviderTarget k)) (TextureNode (ProviderTarget (k + n + 2))) ADD)))
        \<and> colour_target (last out) = colour_target pass)"
proof -
  let ?d = "post_processing_description pass"
  let ?k = "length (render_targets s)"
  let ?q = "pass_data_size s"
  let ?n = "unat (iterations b)"
  let ?cbs = "stage_callbacks ?d (ProviderTarget ?k)"
  let ?m = "?n + 3 + (if colour_adjust ?d = None then 0 else 1) + (if anti_aliasing ?d then 1 else 0)"
  let ?out = "fst (expand_pass pass rps s)"
  let ?s' = "snd (expand_pass pass rps s)"
  have m: "length ?cbs = ?m"
    using assms by (simp add: length_stage_callbacks)
  then have ne: "?cbs \<noteq> []" by auto
  have c1: "length ?out = length rps + 1 + ?m"
    using expand_pass_length[of pass rps s] m by simp
  have c2: "take (length rps) ?out = rps"
    by (simp add: expand_pass_passes)
  have c3: "?out ! length rps = pass\<lparr>colour_target := Some (ProviderTarget ?k)\<rparr>"
    using ne by (rule expand_pass_head)
  have c4: "?out ! (length rps + 1 + j) =
              (new_pass (PassDataScene (?q + j)) (PassDataCamera (?q + j)))
                 \<lparr>colour_target := (if Suc j < ?m then Some (ProviderTarget (?k + Suc j))
                                     else colour_target pass)\<rparr>" if "j < ?m" for j
  proof -
    from that m have "j < length ?cbs" by simp
    from expand_pass_stage[OF this, of rps] show ?thesis unfolding m .
  qed
  have sc: "scenes ?s' (PassDataScene (?q + j)) =
      stage_scene (?q + j) ((?cbs ! j) (ProviderTarget (?k + j)))" if "j < ?m" for j
  proof -
    from that m have "j < length ?cbs" by simp
    from expand_pass_scene[OF this, of rps] show ?thesis .
  qed
  have c5: "scenes ?s' (PassDataScene ?q) =
      stage_scene ?q (RenderNode (Some (TextureNode (ProviderTarget ?k))))"
    using sc[of 0] nth_stage_callbacks(1)[OF assms, of "ProviderTarget ?k"]
    by (simp add: pass_through_graph_def)
  have c6: "scenes ?s' (PassDataScene (?q + 1)) =
            stage_scene (?q + 1) (RenderNode (Some (ConditionalNode
              (ArithmeticNode (TextureNode (ProviderTarget (?k + 1)))
                 (ValueColour 0.2126 0.7152 0.0722 0.0) DOT)
              (ValueFloat (threshold b))
              (TextureNode (ProviderTarget (?k + 1)))
              (ValueColour 0.0 0.0 0.0 1.0)
              GREATER)))"
    using sc[of 1] nth_stage_callbacks(2)[OF assms, of "ProviderTarget ?k"]
    by (simp add: threshold_graph_def)
  have c7: "scenes ?s' (PassDataScene (?q + 2 + i)) =
              stage_scene (?q + 2 + i)
                (RenderNode (Some (BlurNode (TextureNode (ProviderTarget (?k + 2 + i))))))"
    if "i < ?n" for i
  proof -
    from that have "2 + i < ?m" by simp
    from sc[OF this] nth_stage_callbacks(3)[OF assms that, of "ProviderTarget ?k"]
    show ?thesis by (simp add: blur_graph_def add.assoc)
  qed
  have c8: "scenes ?s' (PassDataScene (?q + ?n + 2)) =
            stage_scene (?q + ?n + 2) (RenderNode (Some (ArithmeticNode
              (TextureNode (ProviderTarget ?k)) (TextureNode (ProviderTarget (?k + ?n + 2))) ADD)))"
  proof -
    have "?n + 2 < ?m" by simp
    from sc[OF this] nth_stage_callbacks(4)[OF assms, of "ProviderTarget ?k"]
    show ?thesis by (simp add: composite_graph_def add.assoc)
  qed
  have c9: "colour_target (last ?out) = colour_target pass"
    by (rule expand_pass_last)
  from c1 c2 c3 c4 c5 c6 c7 c8 c9 show ?thesis
    unfolding Let_def by (intro conjI allI impI)
qed

text \<open>
  C4 (amended). For every pass with bloom configured with \<open>n\<close> iterations, the expander
  leaves the pass in place, rendering to a new target, and appends \<open>n + 3\<close> passes right
  after it, before the colour adjust and anti-aliasing stages if there are any, in the order
  pass-through, threshold extraction (the source colour where the dot product of the source
  with the luminance weights is greater than the threshold, else black), \<open>n\<close> blur passes,
  additive composite. Each of these passes reads the colour target of the pass before it, and
  the composite also reads the colour target of the expanded pass itself, which is the target
  the pass-through stage reads (the target returned by the helper call that made the
  pass-through stage). After all stages the colour target of the last pass of the expansion is
  the colour target the pass had before.
\<close>

theorem bloom_expansion:
  assumes "bloom (post_processing_description pass) = Some b"
  shows "(let n = unat (iterations b);
           k = length (render_targets s);
           q = pass_data_size s;
           m = n + 3
               + (if colour_adjust (post_processing_description pass) = None then 0 else 1)
               + (if anti_aliasing (post_processing_description pass) then 1 else 0);
           out = fst (expand_pass pass rps s);
           s' = snd (expand_pass pass rps s)
       in length out = length rps + 1 + m
        \<and> take (length rps) out = rps
        \<and> out ! length rps = pass\<lparr>colour_target := Some (ProviderTarget k)\<rparr>
        \<and> (\<forall>j<m. out ! (length rps + 1 + j) =
              (new_pass (PassDataScene (q + j)) (PassDataCamera (q + j)))
                 \<lparr>colour_target := (if Suc j < m then Some (ProviderTarget (k + Suc j))
                                     else colour_target pass)\<rparr>)
        \<and> scenes s' (PassDataScene q) =
            stage_scene q (RenderNode (Some (TextureNode (ProviderTarget k))))
        \<and> scenes s' (PassDataScene (q + 1)) =
            stage_scene (q + 1) (RenderNode (Some (ConditionalNode
              (ArithmeticNode (TextureNode (ProviderTarget (k + 1)))
                 (ValueColour 0.2126 0.7152 0.0722 0.0) DOT)
              (ValueFloat (threshold b))
              (TextureNode (ProviderTarget (k + 1)))
              (ValueColour 0.0 0.0 0.0 1.0)
              GREATER)))
        \<and> (\<forall>i<n. scenes s' (PassDataScene (q + 2 + i)) =
              stage_scene (q + 2 + i)
                (RenderNode (Some (BlurNode (TextureNode (ProviderTarget (k + 2 + i)))))))
        \<and> scenes s' (PassDataScene (q + n + 2)) =
            stage_scene (q + n + 2) (RenderNode (Some (ArithmeticNode
              (TextureNode (ProviderTarget k)) (TextureNode (ProviderTarget (k + n + 2))) ADD)))
        \<and> colour_target (last out) = colour_target pass)"
  using assms by (rule expand_pass_bloom)


theorem bloom_expansion_witness:
  "bloom (post_processing_description bloom_pass) = Some \<lparr>threshold = 0.8, iterations = 3\<rparr>
   \<and> length (fst (expand_pass bloom_pass [] example_world)) = 7
   \<and> fst (expand_pass bloom_pass [] example_world) ! 0 =
       bloom_pass\<lparr>colour_target := Some (ProviderTarget 0)\<rparr>
   \<and> fst (expand_pass bloom_pass [] example_world) ! 1 =
       (new_pass (PassDataScene 0) (PassDataCamera 0))\<lparr>colour_target := Some (ProviderTarget 1)\<rparr>
   \<and> fst (expand_pass bloom_pass [] example_world) ! 6 =
       (new_pass (PassDataScene 5) (PassDataCamera 5))\<lparr>colour_target := Some (CallerTarget 5)\<rparr>
   \<and> scenes (snd (expand_pass bloom_pass [] example_world)) (PassDataScene 2) =
       stage_scene 2 (RenderNode (Some (BlurNode (TextureNode (ProviderTarget 2)))))
   \<and> scenes (snd (expand_pass bloom_pass [] example_world)) (PassDataScene 5) =
       stage_scene 5 (RenderNode (Some (ArithmeticNode
         (TextureNode (ProviderTarget 0)) (TextureNode (ProviderTarget 5)) ADD)))
   \<and> colour_target (last (fst (expand_pass bloom_pass [] example_world))) = Some (CallerTarget 5)"
proof -
  let ?out = "fst (expand_pass bloom_pass [] example_world)"
  let ?s' = "snd (expand_pass bloom_pass [] example_world)"
  have h: "bloom (post_processing_description bloom_pass) = Some \<lparr>threshold = 0.8, iterations = 3\<rparr>"
    by (simp add: bloom_pass_def)
  have d: "colour_adjust (post_processing_description bloom_pass) = None"
    "\<not> anti_aliasing (post_processing_description bloom_pass)"
    "colour_target bloom_pass = Some (CallerTarget 5)"
    by (simp_all add: bloom_pass_def empty_description_def)
  have w: "length (render_targets example_world) = 0" "pass_data_size example_world = 0"
    by (simp_all add: example_world_def)
  have n: "unat (3 :: u32) = 3" by simp
  note t = bloom_expansion[OF h, where rps = "[]" and s = example_world, unfolded Let_def]
  from t have len: "length ?out = 7" by (simp add: d w n)
  from t have hd: "?out ! 0 = bloom_pass\<lparr>colour_target := Some (ProviderTarget 0)\<rparr>"
    by (simp add: d w n)
  from t have st: "\<forall>j<6. ?out ! (1 + j) =
      (new_pass (PassDataScene j) (PassDataCamera j))
         \<lparr>colour_target := (if Suc j < 6 then Some (ProviderTarget (Suc j))
                             else Some (CallerTarget 5))\<rparr>"
    by (simp add: d w n)
  from st[rule_format, of 0] have s0: "?out ! 1 =
      (new_pass (PassDataScene 0) (PassDataCamera 0))\<lparr>colour_target := Some (ProviderTarget 1)\<rparr>"
    by simp
  from st[rule_format, of 5] have s5: "?out ! 6 =
      (new_pass (PassDataScene 5) (PassDataCamera 5))\<lparr>colour_target := Some (CallerTarget 5)\<rparr>"
    by simp
  from t have bl: "\<forall>i<3. scenes ?s' (PassDataScene (2 + i)) =
      stage_scene (2 + i) (RenderNode (Some (BlurNode (TextureNode (ProviderTarget (2 + i))))))"
    by (simp add: d w n)
  from bl[rule_format, of 0] have b0: "scenes ?s' (PassDataScene 2) =
      stage_scene 2 (RenderNode (Some (BlurNode (TextureNode (ProviderTarget 2)))))"
    by simp
  from t have co: "scenes ?s' (PassDataScene 5) =
       stage_scene 5 (RenderNode (Some (ArithmeticNode
         (TextureNode (ProviderTarget 0)) (TextureNode (ProviderTarget 5)) ADD)))"
    by (simp add: d w n)
  from t have la: "colour_target (last ?out) = Some (CallerTarget 5)"
    by (simp add: d w n)
  from h len hd s0 s5 b0 co la show ?thesis by (intro conjI)
qed

text \<open>
  C4 as stated fails: the composite does not read the output of the pass-through stage. In the
  example the pass-through stage is the pass at position 1 of the expansion (its scene holds
  the pass-through graph over target 0) and it renders to target 1; the composite stage, at
  position 6, reads target 0, to which the expanded pass itself renders, and target 5, the
  output of the last blur pass.
\<close>

theorem composite_reads_input_of_pass_through:
  "scene (fst (expand_pass bloom_pass [] example_world) ! 1) = PassDataScene 0
   \<and> scenes (snd (expand_pass bloom_pass [] example_world)) (PassDataScene 0) =
       stage_scene 0 (RenderNode (Some (TextureNode (ProviderTarget 0))))
   \<and> colour_target (fst (expand_pass bloom_pass [] example_world) ! 0) = Some (ProviderTarget 0)
   \<and> colour_target (fst (expand_pass bloom_pass [] example_world) ! 1) = Some (ProviderTarget 1)
   \<and> scene (fst (expand_pass bloom_pass [] example_world) ! 6) = PassDataScene 5
   \<and> scenes (snd (expand_pass bloom_pass [] example_world)) (PassDataScene 5) =
       stage_scene 5 (RenderNode (Some (ArithmeticNode
         (TextureNode (ProviderTarget 0)) (TextureNode (ProviderTarget 5)) ADD)))"
proof -
  let ?out = "fst (expand_pass bloom_pass [] example_world)"
  let ?s' = "snd (expand_pass bloom_pass [] example_world)"
  have h: "bloom (post_processing_description bloom_pass) = Some \<lparr>threshold = 0.8, iterations = 3\<rparr>"
    by (simp add: bloom_pass_def)
  have d: "colour_adjust (post_processing_description bloom_pass) = None"
    "\<not> anti_aliasing (post_processing_description bloom_pass)"
    "colour_target bloom_pass = Some (CallerTarget 5)"
    by (simp_all add: bloom_pass_def empty_description_def)
  have w: "length (render_targets example_world) = 0" "pass_data_size example_world = 0"
    by (simp_all add: example_world_def)
  have n: "unat (3 :: u32) = 3" by simp
  note t = expand_pass_bloom[OF h, where rps = "[]" and s = example_world, unfolded Let_def]
  from t have hd: "?out ! 0 = bloom_pass\<lparr>colour_target := Some (ProviderTarget 0)\<rparr>"
    by (simp add: d w n)
  from t have st: "\<forall>j<6. ?out ! (1 + j) =
      (new_pass (PassDataScene j) (PassDataCamera j))
         \<lparr>colour_target := (if Suc j < 6 then Some (ProviderTarget (Suc j))
                             else Some (CallerTarget 5))\<rparr>"
    by (simp add: d w n)
  from st[rule_format, of 0] have s0: "?out ! 1 =
      (new_pass (PassDataScene 0) (PassDataCamera 0))\<lparr>colour_target := Some (ProviderTarget 1)\<rparr>"
    by simp
  from st[rule_format, of 5] have s5: "?out ! 6 =
      (new_pass (PassDataScene 5) (PassDataCamera 5))\<lparr>colour_target := Some (CallerTarget 5)\<rparr>"
    by simp
  from t have pt: "scenes ?s' (PassDataScene 0) =
       stage_scene 0 (RenderNode (Some (TextureNode (ProviderTarget 0))))"
    by (simp add: d w n)
  from t have co: "scenes ?s' (PassDataScene 5) =
       stage_scene 5 (RenderNode (Some (ArithmeticNode
         (TextureNode (ProviderTarget 0)) (TextureNode (ProviderTarget 5)) ADD)))"
    by (simp add: d w n)
  from hd s0 s5 pt co show ?thesis by (simp add: new_pass_def)
qed

section \<open>What the injector and the expander leave unchanged\<close>

lemma caller_frame_refl: "caller_frame s s"
  by (simp add: caller_frame_def)

lemma caller_frame_trans: "caller_frame s s1 \<Longrightarrow> caller_frame s1 s2 \<Longrightarrow> caller_frame s s2"
  by (simp add: caller_frame_def)

lemma create_render_target_frame: "caller_frame s (snd (create_render_target w h s))"
  by (simp add: caller_frame_def create_render_target_def)

lemma create_hybrid_render_target_frame: "caller_frame s (snd (create_hybrid_render_target a b s))"
  by (simp add: caller_frame_def create_hybrid_render_target_def)

lemma add_pass_frame: "caller_frame s (snd (snd (add_pass cb rps s)))"
  by (simp add: caller_frame_def add_pass_fields add_pass_scenes add_pass_cameras)

lemma add_passes_frame: "caller_frame s (snd (add_passes cbs rps s))"
proof (induction cbs arbitrary: rps s)
  case Nil
  show ?case by (simp add: caller_frame_refl)
next
  case (Cons cb cbs)
  from add_pass_frame[of s cb rps]
    Cons.IH[of "snd (snd (add_pass cb rps s))" "fst (snd (add_pass cb rps s))"]
  show ?case by (simp add: split_beta) (rule caller_frame_trans)
qed

lemma expand_pass_frame: "caller_frame s (snd (expand_pass pass rps s))"
  by (simp add: expand_pass_eq add_passes_frame)

lemma add_post_processing_passes_frame:
  "caller_frame s (snd (add_post_processing_passes ps rps s))"
proof (induction ps arbitrary: rps s)
  case Nil
  show ?case by (simp add: caller_frame_refl)
next
  case (Cons p ps)
  from expand_pass_frame[of s p rps]
    Cons.IH[of "snd (expand_pass p rps s)" "fst (expand_pass p rps s)"]
  show ?case by (simp add: split_beta) (rule caller_frame_trans)
qed

lemma add_shadow_passes_frame: "caller_frame s (snd (snd (add_shadow_passes pass ls pre sm s)))"
  by (simp add: add_shadow_passes_world caller_frame_def)

lemma add_ambient_occlusion_passes_frame:
  "caller_frame s (snd (snd (add_ambient_occlusion_passes pass pre s)))"
  by (cases "ambient_occlusion (post_processing_description pass)")
     (simp_all add: add_ambient_occlusion_passes_None add_ambient_occlusion_passes_Some Let_def
        caller_frame_def)

lemma inject_pass_frame: "caller_frame s (snd (snd (snd (inject_pass pass pre sm s))))"
  using add_shadow_passes_frame[of s pass "directional_lights (scenes s (scene pass))" pre sm]
    add_ambient_occlusion_passes_frame
  by (simp add: inject_pass_eq Let_def) (rule caller_frame_trans)

lemma inject_frame: "caller_frame s (snd (snd (snd (inject ps pre sm s))))"
proof (induction ps arbitrary: pre sm s)
  case Nil
  show ?case by (simp add: caller_frame_refl)
next
  case (Cons p ps)
  let ?r = "inject_pass p pre sm s"
  from inject_pass_frame[of s p pre sm]
    Cons.IH[of "snd (snd (snd ?r))" "fst (snd ?r)" "fst (snd (snd ?r))"]
  show ?case by (simp add: split_beta) (rule caller_frame_trans)
qed

section \<open>What the encoder leaves unchanged\<close>

lemma grows_refl: "grows sc sc"
  by (simp add: grows_def)

lemma grows_trans: "grows a b \<Longrightarrow> grows b c \<Longrightarrow> grows a c"
  by (auto simp: grows_def)

lemma encoder_frame_refl: "encoder_frame s s"
  by (simp add: encoder_frame_def grows_refl)

lemma encoder_frame_trans: "encoder_frame s s1 \<Longrightarrow> encoder_frame s1 s2 \<Longrightarrow> encoder_frame s s2"
  unfolding encoder_frame_def using grows_trans by (metis (no_types, lifting))

lemma encoder_frame_materials: "encoder_frame s (s\<lparr>materials := m\<rparr>)"
  by (simp add: encoder_frame_def grows_refl)

lemma encode_blocks_frame:
  "encoder_frame s (snd (snd (encode_ambient sm pass cmd s)))"
  "encoder_frame s (snd (snd (encode_point sm pass cmd s)))"
  "encoder_frame s (snd (snd (encode_directional sm pass cmd s)))"
  by (simp_all only: encode_ambient_world encode_point_world encode_directional_world
        encoder_frame_materials)

lemma encode_sky_box_world:
  "snd (snd (encode_sky_box pass cmd s)) =
     (if sky_active pass
      then s\<lparr>scenes := (scenes s)(scene pass :=
               (scenes s (scene pass))
                 \<lparr>render_graphs := render_graphs (scenes s (scene pass)) @ [SkyBoxNode (the (sky_box pass))],
                  entities := entities (scenes s (scene pass)) @
                    [(length (render_graphs (scenes s (scene pass))),
                      SingleEntity (scene pass) (length (render_graphs (scenes s (scene pass)))))]\<rparr>),
             materials := materials s @
               [\<lparr>mr_scene = scene pass,
                 mr_render_graph = length (render_graphs (scenes s (scene pass))),
                 mr_entity = SingleEntity (scene pass) (length (render_graphs (scenes s (scene pass)))),
                 mr_target = colour_target pass, mr_light_type = AMBIENT,
                 mr_normal = False, mr_position = False\<rparr>]\<rparr>
      else s)"
  by (simp add: encode_sky_box_def sky_active_def Let_def split_beta create_render_graph_def
        create_entity_def create_material_def split: option.splits)

lemma encode_sky_box_frame: "encoder_frame s (snd (snd (encode_sky_box pass cmd s)))"
  by (simp add: encode_sky_box_world encoder_frame_def grows_def)

lemma encode_sky_box_scene_other:
  "scene pass = r \<longrightarrow> \<not> sky_active pass \<Longrightarrow>
     scenes (snd (snd (encode_sky_box pass cmd s))) r = scenes s r"
  by (auto simp: encode_sky_box_world)

lemma encode_pass_frame: "encoder_frame s (snd (snd (encode_pass sm i pass cmd s)))"
proof -
  let ?c1 = "cmd\<lparr>render_pass := Some i, rc_type := PASS_START\<rparr>"
  let ?a = "encode_ambient sm pass ?c1 s"
  let ?p = "encode_point sm pass (fst (snd ?a)) (snd (snd ?a))"
  let ?d = "encode_directional sm pass (fst (snd ?p)) (snd (snd ?p))"
  let ?k = "encode_sky_box pass (fst (snd ?d)) (snd (snd ?d))"
  have e: "snd (snd (encode_pass sm i pass cmd s)) = snd (snd ?k)"
    by (simp add: encode_pass_def Let_def split_beta)
  have f1: "encoder_frame s (snd (snd ?a))" by (rule encode_blocks_frame)
  have f2: "encoder_frame (snd (snd ?a)) (snd (snd ?p))" by (rule encode_blocks_frame)
  have f3: "encoder_frame (snd (snd ?p)) (snd (snd ?d))" by (rule encode_blocks_frame)
  have f4: "encoder_frame (snd (snd ?d)) (snd (snd ?k))" by (rule encode_sky_box_frame)
  from encoder_frame_trans[OF encoder_frame_trans[OF encoder_frame_trans[OF f1 f2] f3] f4]
  show ?thesis unfolding e .
qed

lemma encode_pass_scene_other:
  assumes "scene pass = r \<longrightarrow> \<not> sky_active pass"
  shows "scenes (snd (snd (encode_pass sm i pass cmd s))) r = scenes s r"
proof -
  let ?c1 = "cmd\<lparr>render_pass := Some i, rc_type := PASS_START\<rparr>"
  let ?a = "encode_ambient sm pass ?c1 s"
  let ?p = "encode_point sm pass (fst (snd ?a)) (snd (snd ?a))"
  let ?d = "encode_directional sm pass (fst (snd ?p)) (snd (snd ?p))"
  let ?k = "encode_sky_box pass (fst (snd ?d)) (snd (snd ?d))"
  have e: "snd (snd (encode_pass sm i pass cmd s)) = snd (snd ?k)"
    by (simp add: encode_pass_def Let_def split_beta)
  have "scenes (snd (snd ?k)) r = scenes (snd (snd ?d)) r"
    using assms by (rule encode_sky_box_scene_other)
  also have "scenes (snd (snd ?d)) = scenes (snd (snd ?p))" by (rule encode_blocks_scenes)
  also have "scenes (snd (snd ?p)) = scenes (snd (snd ?a))" by (rule encode_blocks_scenes)
  also have "scenes (snd (snd ?a)) = scenes s" by (rule encode_blocks_scenes)
  finally show ?thesis unfolding e .
qed

lemma encode_passes_frame: "encoder_frame s (snd (snd (encode_passes sm i ps cmd s)))"
proof (induction ps arbitrary: i cmd s)
  case Nil
  show ?case by (simp add: encoder_frame_refl)
next
  case (Cons p ps)
  let ?r = "encode_pass sm i p cmd s"
  have "encoder_frame (snd (snd ?r)) (snd (snd (encode_passes sm (Suc i) ps (fst (snd ?r)) (snd (snd ?r)))))"
    by (rule Cons.IH)
  with encode_pass_frame[of s sm i p cmd] show ?case
    by (simp add: split_beta) (rule encoder_frame_trans)
qed

lemma encode_passes_scene_other:
  "list_all (\<lambda>p. scene p = r \<longrightarrow> \<not> sky_active p) ps \<Longrightarrow>
     scenes (snd (snd (encode_passes sm i ps cmd s))) r = scenes s r"
proof (induction ps arbitrary: i cmd s)
  case Nil
  show ?case by simp
next
  case (Cons p ps)
  let ?r = "encode_pass sm i p cmd s"
  from Cons.prems have p: "scene p = r \<longrightarrow> \<not> sky_active p"
    and ps: "list_all (\<lambda>p. scene p = r \<longrightarrow> \<not> sky_active p) ps" by simp_all
  have "scenes (snd (snd (encode_passes sm (Suc i) ps (fst (snd ?r)) (snd (snd ?r))))) r
      = scenes (snd (snd ?r)) r"
    using ps by (rule Cons.IH)
  with encode_pass_scene_other[OF p, of sm i cmd s] show ?case
    by (simp add: split_beta)
qed

section \<open>Passes that add a sky box\<close>

lemma keeps_scene_updates:
  "keeps_scene r (p\<lparr>colour_target := c\<rparr>) = keeps_scene r p"
  "keeps_scene r (p\<lparr>colour_target := c, clear_colour := a, clear_depth := b\<rparr>) = keeps_scene r p"
  "keeps_scene r (new_pass sc cam)"
  "keeps_scene r (shadow_pass_for p l t)"
  by (simp_all add: keeps_scene_def sky_active_def new_pass_def shadow_pass_for_def)

lemma list_all_map_back:
  "list_all Q xs \<Longrightarrow> (\<And>x. Q x \<Longrightarrow> Q (f x)) \<Longrightarrow> list_all Q (map_back f xs)"
  by (cases xs rule: rev_cases) (simp_all add: map_back_def)

lemma stage_passes_keep: "list_all (keeps_scene r) (stage_passes n k m)"
  by (simp add: stage_passes_def list_all_iff keeps_scene_updates)

lemma expand_pass_keeps:
  assumes "list_all (keeps_scene r) rps" "keeps_scene r pass"
  shows "list_all (keeps_scene r) (fst (expand_pass pass rps s))"
proof -
  have "list_all (keeps_scene r)
       (pass\<lparr>colour_target :=
               (if stage_callbacks (post_processing_description pass)
                     (ProviderTarget (length (render_targets s))) = []
                then colour_target pass
                else Some (ProviderTarget (length (render_targets s))))\<rparr>
        # stage_passes (pass_data_size s) (length (render_targets s))
            (length (stage_callbacks (post_processing_description pass)
                (ProviderTarget (length (render_targets s))))))"
    using assms(2) by (simp add: keeps_scene_updates stage_passes_keep)
  then have "list_all (keeps_scene r) (map_back (\<lambda>p. p\<lparr>colour_target := colour_target pass\<rparr>)
       (pass\<lparr>colour_target :=
               (if stage_callbacks (post_processing_description pass)
                     (ProviderTarget (length (render_targets s))) = []
                then colour_target pass
                else Some (ProviderTarget (length (render_targets s))))\<rparr>
        # stage_passes (pass_data_size s) (length (render_targets s))
            (length (stage_callbacks (post_processing_description pass)
                (ProviderTarget (length (render_targets s)))))))"
    by (rule list_all_map_back) (simp add: keeps_scene_updates)
  with assms(1) show ?thesis
    unfolding expand_pass_passes by simp
qed

lemma add_post_processing_passes_keeps:
  "list_all (keeps_scene r) rps \<Longrightarrow> list_all (keeps_scene r) ps \<Longrightarrow>
     list_all (keeps_scene r) (fst (add_post_processing_passes ps rps s))"
proof (induction ps arbitrary: rps s)
  case Nil
  then show ?case by simp
next
  case (Cons p ps)
  from Cons.prems have p: "keeps_scene r p" and ps: "list_all (keeps_scene r) ps" by simp_all
  have "list_all (keeps_scene r) (fst (expand_pass p rps s))"
    using Cons.prems(1) p by (rule expand_pass_keeps)
  from Cons.IH[OF this ps, of "snd (expand_pass p rps s)"] show ?case
    by (simp add: split_beta)
qed

lemma add_shadow_passes_keeps:
  "list_all (keeps_scene r) pre \<Longrightarrow>
     list_all (keeps_scene r) (fst (add_shadow_passes pass ls pre sm s))"
  by (auto simp: add_shadow_passes_passes list_all_iff keeps_scene_updates)

lemma add_ambient_occlusion_passes_keeps:
  assumes "list_all (keeps_scene r) pre" "keeps_scene r pass"
  shows "list_all (keeps_scene r) (fst (snd (add_ambient_occlusion_passes pass pre s)))"
    and "keeps_scene r (fst (add_ambient_occlusion_passes pass pre s))"
proof -
  have d: "keeps_scene r (p\<lparr>post_processing_description := e, colour_target := c,
      normal_target := n, position_target := q, depth_only := True, clear_colour := True\<rparr>)"
    for p e c n q
    by (simp add: keeps_scene_def sky_active_def)
  show "list_all (keeps_scene r) (fst (snd (add_ambient_occlusion_passes pass pre s)))"
    using assms
    by (cases "ambient_occlusion (post_processing_description pass)")
       (simp_all add: add_ambient_occlusion_passes_None add_ambient_occlusion_passes_Some Let_def
          keeps_scene_updates d)
  show "keeps_scene r (fst (add_ambient_occlusion_passes pass pre s))"
    using assms
    by (cases "ambient_occlusion (post_processing_description pass)")
       (simp_all add: add_ambient_occlusion_passes_None add_ambient_occlusion_passes_Some Let_def
          keeps_scene_updates)
qed

lemma inject_pass_keeps:
  assumes "list_all (keeps_scene r) pre" "keeps_scene r pass"
  shows "list_all (keeps_scene r) (fst (snd (inject_pass pass pre sm s)))"
    and "keeps_scene r (fst (inject_pass pass pre sm s))"
  using add_ambient_occlusion_passes_keeps[OF add_shadow_passes_keeps[OF assms(1)] assms(2)]
  by (simp_all add: inject_pass_eq Let_def)

lemma inject_keeps:
  "list_all (keeps_scene r) pre \<Longrightarrow> list_all (keeps_scene r) ps \<Longrightarrow>
     list_all (keeps_scene r) (fst (inject ps pre sm s))
     \<and> list_all (keeps_scene r) (fst (snd (inject ps pre sm s)))"
proof (induction ps arbitrary: pre sm s)
  case Nil
  then show ?case by simp
next
  case (Cons p ps)
  let ?r = "inject_pass p pre sm s"
  from Cons.prems have p: "keeps_scene r p" and ps: "list_all (keeps_scene r) ps" by simp_all
  note k = inject_pass_keeps[OF Cons.prems(1) p, of sm s]
  from Cons.IH[OF k(1) ps, of "fst (snd (snd ?r))" "snd (snd (snd ?r))"] k(2) show ?case
    by (simp add: split_beta)
qed

lemma build_keeps:
  assumes "list_all (keeps_scene r) render_passes"
  shows "list_all (keeps_scene r) (fst (snd (build render_passes s)))"
proof -
  let ?i = "inject render_passes [] Map.empty s"
  from inject_keeps[OF _ assms, of "[]" Map.empty s]
  have "list_all (keeps_scene r) (fst ?i)" "list_all (keeps_scene r) (fst (snd ?i))"
    by simp_all
  then have "list_all (keeps_scene r) (fst (snd ?i) @ fst ?i)" by simp
  from add_post_processing_passes_keeps[OF _ this, of "[]" "snd (snd (snd ?i))"]
  show ?thesis by (simp add: build_def split_beta)
qed

lemma build_world:
  "snd (snd (build render_passes s)) =
     snd (snd (encode_passes (fst (snd (snd (inject render_passes [] Map.empty s)))) 0
       (fst (snd (build render_passes s))) default_command
       (snd (add_post_processing_passes
          (fst (snd (inject render_passes [] Map.empty s)) @ fst (inject render_passes [] Map.empty s))
          [] (snd (snd (snd (inject render_passes [] Map.empty s))))))))"
  by (simp add: build_def split_beta)

lemma build_caller_frame_before_encoding:
  "caller_frame s (snd (add_post_processing_passes
          (fst (snd (inject render_passes [] Map.empty s)) @ fst (inject render_passes [] Map.empty s))
          [] (snd (snd (snd (inject render_passes [] Map.empty s))))))"
  by (rule caller_frame_trans[OF inject_frame add_post_processing_passes_frame])

section \<open>Sky boxes added to a scene\<close>

lemma sky_boxes_simps:
  "sky_boxes r [] = []"
  "sky_boxes r (xs @ ys) = sky_boxes r xs @ sky_boxes r ys"
  "sky_boxes r (p # ps) = sky_boxes r [p] @ sky_boxes r ps"
  by (simp_all add: sky_boxes_def)

lemma sky_boxes_single:
  "sky_boxes r [p] = (if scene p = r \<and> sky_active p then [the (sky_box p)] else [])"
  by (simp add: sky_boxes_def sky_active_def split: option.splits)

lemma sky_boxes_keeps: "list_all (keeps_scene r) ps \<Longrightarrow> sky_boxes r ps = []"
proof (induction ps)
  case Nil
  show ?case by (rule sky_boxes_simps(1))
next
  case (Cons p ps)
  from Cons.prems have p: "keeps_scene r p" and ps: "list_all (keeps_scene r) ps" by simp_all
  from p have "sky_boxes r [p] = []"
    unfolding sky_boxes_single keeps_scene_def by simp
  moreover from Cons.IH[OF ps] have "sky_boxes r ps = []" .
  ultimately show ?case
    using sky_boxes_simps(3)[of r p ps] by simp
qed

lemma with_sky_boxes_Nil: "with_sky_boxes r [] sc = sc"
  by (simp add: with_sky_boxes_def)

lemma with_sky_boxes_Cons:
  "with_sky_boxes r (k # ks) sc = with_sky_boxes r ks (with_sky_boxes r [k] sc)"
  by (simp add: with_sky_boxes_def map_upt_Suc del: upt_Suc)

lemma with_sky_boxes_append:
  "with_sky_boxes r (ks @ ks') sc = with_sky_boxes r ks' (with_sky_boxes r ks sc)"
proof (induction ks arbitrary: sc)
  case Nil
  show ?case by (simp add: with_sky_boxes_Nil)
next
  case (Cons k ks)
  have "with_sky_boxes r ((k # ks) @ ks') sc = with_sky_boxes r (ks @ ks') (with_sky_boxes r [k] sc)"
    using with_sky_boxes_Cons[of r k "ks @ ks'" sc] by simp
  also have "\<dots> = with_sky_boxes r ks' (with_sky_boxes r ks (with_sky_boxes r [k] sc))"
    by (rule Cons.IH)
  also have "with_sky_boxes r ks (with_sky_boxes r [k] sc) = with_sky_boxes r (k # ks) sc"
    by (rule with_sky_boxes_Cons[symmetric])
  finally show ?case .
qed

lemma encode_sky_box_scene:
  "scenes (snd (snd (encode_sky_box pass cmd s))) r = with_sky_boxes r (sky_boxes r [pass]) (scenes s r)"
  by (auto simp: encode_sky_box_world sky_boxes_single with_sky_boxes_def sky_active_def)

lemma encode_pass_scene:
  "scenes (snd (snd (encode_pass sm i pass cmd s))) r = with_sky_boxes r (sky_boxes r [pass]) (scenes s r)"
proof -
  let ?c1 = "cmd\<lparr>render_pass := Some i, rc_type := PASS_START\<rparr>"
  let ?a = "encode_ambient sm pass ?c1 s"
  let ?p = "encode_point sm pass (fst (snd ?a)) (snd (snd ?a))"
  let ?d = "encode_directional sm pass (fst (snd ?p)) (snd (snd ?p))"
  let ?k = "encode_sky_box pass (fst (snd ?d)) (snd (snd ?d))"
  have e: "snd (snd (encode_pass sm i pass cmd s)) = snd (snd ?k)"
    by (simp add: encode_pass_def Let_def split_beta)
  have "scenes (snd (snd ?d)) = scenes (snd (snd ?p))" by (rule encode_blocks_scenes)
  also have "scenes (snd (snd ?p)) = scenes (snd (snd ?a))" by (rule encode_blocks_scenes)
  also have "scenes (snd (snd ?a)) = scenes s" by (rule encode_blocks_scenes)
  finally have "scenes (snd (snd ?d)) r = scenes s r" by simp
  then show ?thesis
    unfolding e using encode_sky_box_scene[of pass "fst (snd ?d)" "snd (snd ?d)" r] by simp
qed

lemma encode_passes_scene:
  "scenes (snd (snd (encode_passes sm i ps cmd s))) r = with_sky_boxes r (sky_boxes r ps) (scenes s r)"
proof (induction ps arbitrary: i cmd s)
  case Nil
  show ?case by (simp add: sky_boxes_simps with_sky_boxes_Nil)
next
  case (Cons p ps)
  let ?r = "encode_pass sm i p cmd s"
  have "scenes (snd (snd (encode_passes sm i (p # ps) cmd s))) r =
      scenes (snd (snd (encode_passes sm (Suc i) ps (fst (snd ?r)) (snd (snd ?r))))) r"
    by (simp add: split_beta)
  also have "\<dots> = with_sky_boxes r (sky_boxes r ps) (scenes (snd (snd ?r)) r)"
    by (rule Cons.IH)
  also have "scenes (snd (snd ?r)) r = with_sky_boxes r (sky_boxes r [p]) (scenes s r)"
    by (rule encode_pass_scene)
  also have "with_sky_boxes r (sky_boxes r ps) (with_sky_boxes r (sky_boxes r [p]) (scenes s r)) =
      with_sky_boxes r (sky_boxes r [p] @ sky_boxes r ps) (scenes s r)"
    by (rule with_sky_boxes_append[symmetric])
  finally show ?case
    using sky_boxes_simps(3)[of r p ps] by simp
qed


lemma sky_boxes_colour_target: "sky_boxes r [p\<lparr>colour_target := c\<rparr>] = sky_boxes r [p]"
  by (simp add: sky_boxes_def)

lemma sky_boxes_map_back:
  assumes "\<And>p. sky_boxes r [f p] = sky_boxes r [p]"
  shows "sky_boxes r (map_back f xs) = sky_boxes r xs"
proof (cases xs rule: rev_cases)
  case Nil
  then show ?thesis by (simp add: map_back_def)
next
  case (snoc ys y)
  then show ?thesis
    using assms[of y] by (simp add: map_back_def sky_boxes_simps(2))
qed

lemma expand_pass_sky_boxes:
  "sky_boxes r (fst (expand_pass pass rps s)) = sky_boxes r rps @ sky_boxes r [pass]"
proof -
  let ?m = "length (stage_callbacks (post_processing_description pass)
                (ProviderTarget (length (render_targets s))))"
  let ?p' = "pass\<lparr>colour_target :=
               (if stage_callbacks (post_processing_description pass)
                     (ProviderTarget (length (render_targets s))) = []
                then colour_target pass
                else Some (ProviderTarget (length (render_targets s))))\<rparr>"
  let ?st = "stage_passes (pass_data_size s) (length (render_targets s)) ?m"
  have "sky_boxes r (map_back (\<lambda>p. p\<lparr>colour_target := colour_target pass\<rparr>) (?p' # ?st)) =
      sky_boxes r (?p' # ?st)"
    by (rule sky_boxes_map_back) (rule sky_boxes_colour_target)
  also have "\<dots> = sky_boxes r [?p'] @ sky_boxes r ?st"
    by (rule sky_boxes_simps(3))
  also have "sky_boxes r ?st = []"
    by (rule sky_boxes_keeps) (rule stage_passes_keep)
  also have "sky_boxes r [?p'] = sky_boxes r [pass]"
    by (rule sky_boxes_colour_target)
  finally show ?thesis
    unfolding expand_pass_passes sky_boxes_simps(2) by simp
qed

lemma add_post_processing_passes_sky_boxes:
  "sky_boxes r (fst (add_post_processing_passes ps rps s)) = sky_boxes r rps @ sky_boxes r ps"
proof (induction ps arbitrary: rps s)
  case Nil
  show ?case by (simp add: sky_boxes_simps(1))
next
  case (Cons p ps)
  have "sky_boxes r (fst (add_post_processing_passes (p # ps) rps s)) =
      sky_boxes r (fst (add_post_processing_passes ps (fst (expand_pass p rps s)) (snd (expand_pass p rps s))))"
    by (simp add: split_beta)
  also have "\<dots> = sky_boxes r (fst (expand_pass p rps s)) @ sky_boxes r ps"
    by (rule Cons.IH)
  also have "sky_boxes r (fst (expand_pass p rps s)) = sky_boxes r rps @ sky_boxes r [p]"
    by (rule expand_pass_sky_boxes)
  finally show ?case
    using sky_boxes_simps(3)[of r p ps] by simp
qed

lemma add_ambient_occlusion_passes_sky_boxes:
  "sky_boxes r [fst (add_ambient_occlusion_passes pass pre s)] = sky_boxes r [pass]"
  by (cases "ambient_occlusion (post_processing_description pass)")
     (simp_all add: add_ambient_occlusion_passes_None add_ambient_occlusion_passes_Some Let_def
        sky_boxes_def)

lemma add_ambient_occlusion_passes_pre_keeps:
  assumes "list_all (keeps_scene r) pre"
  shows "list_all (keeps_scene r) (fst (snd (add_ambient_occlusion_passes pass pre s)))"
proof -
  have d: "keeps_scene r (p\<lparr>post_processing_description := e, colour_target := c,
      normal_target := n, position_target := q, depth_only := True, clear_colour := True\<rparr>)"
    for p e c n q
    by (simp add: keeps_scene_def sky_active_def)
  show ?thesis
    using assms
    by (cases "ambient_occlusion (post_processing_description pass)")
       (simp_all add: add_ambient_occlusion_passes_None add_ambient_occlusion_passes_Some Let_def
          keeps_scene_updates d)
qed

lemma inject_pass_sky_boxes:
  "sky_boxes r [fst (inject_pass pass pre sm s)] = sky_boxes r [pass]"
  "list_all (keeps_scene r) pre \<Longrightarrow> list_all (keeps_scene r) (fst (snd (inject_pass pass pre sm s)))"
  by (simp_all add: inject_pass_eq Let_def add_ambient_occlusion_passes_sky_boxes
        add_ambient_occlusion_passes_pre_keeps add_shadow_passes_keeps)

lemma inject_sky_boxes:
  "sky_boxes r (fst (inject ps pre sm s)) = sky_boxes r ps"
proof (induction ps arbitrary: pre sm s)
  case Nil
  show ?case by simp
next
  case (Cons p ps)
  let ?r = "inject_pass p pre sm s"
  let ?rest = "inject ps (fst (snd ?r)) (fst (snd (snd ?r))) (snd (snd (snd ?r)))"
  have "fst (inject (p # ps) pre sm s) = fst ?r # fst ?rest"
    by (simp add: split_beta)
  then have "sky_boxes r (fst (inject (p # ps) pre sm s)) = sky_boxes r [fst ?r] @ sky_boxes r (fst ?rest)"
    using sky_boxes_simps(3)[of r "fst ?r" "fst ?rest"] by simp
  also have "sky_boxes r [fst ?r] = sky_boxes r [p]" by (rule inject_pass_sky_boxes)
  also have "sky_boxes r (fst ?rest) = sky_boxes r ps" by (rule Cons.IH)
  finally show ?case
    using sky_boxes_simps(3)[of r p ps] by simp
qed

lemma inject_pre_keeps:
  "list_all (keeps_scene r) pre \<Longrightarrow> list_all (keeps_scene r) (fst (snd (inject ps pre sm s)))"
proof (induction ps arbitrary: pre sm s)
  case Nil
  then show ?case by simp
next
  case (Cons p ps)
  let ?r = "inject_pass p pre sm s"
  have "list_all (keeps_scene r) (fst (snd ?r))"
    using Cons.prems by (rule inject_pass_sky_boxes)
  from Cons.IH[OF this, of "fst (snd (snd ?r))" "snd (snd (snd ?r))"] show ?case
    by (simp add: split_beta)
qed

lemma build_sky_boxes:
  "sky_boxes r (fst (snd (build render_passes s))) = sky_boxes r render_passes"
proof -
  let ?i = "inject render_passes [] Map.empty s"
  have "list_all (keeps_scene r) (fst (snd ?i))"
    by (rule inject_pre_keeps) simp
  then have pre: "sky_boxes r (fst (snd ?i)) = []" by (rule sky_boxes_keeps)
  have "sky_boxes r (fst (snd (build render_passes s))) =
      sky_boxes r (fst (add_post_processing_passes (fst (snd ?i) @ fst ?i) [] (snd (snd (snd ?i)))))"
    by (simp add: build_def split_beta)
  also have "\<dots> = sky_boxes r [] @ sky_boxes r (fst (snd ?i) @ fst ?i)"
    by (rule add_post_processing_passes_sky_boxes)
  also have "\<dots> = sky_boxes r (fst ?i)"
    by (simp add: sky_boxes_simps(1,2) pre)
  also have "\<dots> = sky_boxes r render_passes"
    by (rule inject_sky_boxes)
  finally show ?thesis .
qed

lemma build_scene:
  "scenes (snd (snd (build render_passes s))) (CallerScene i) =
     with_sky_boxes (CallerScene i) (sky_boxes (CallerScene i) render_passes) (scenes s (CallerScene i))"
proof -
  let ?i = "inject render_passes [] Map.empty s"
  let ?s2 = "snd (add_post_processing_passes (fst (snd ?i) @ fst ?i) [] (snd (snd (snd ?i))))"
  have a: "caller_frame s ?s2" by (rule build_caller_frame_before_encoding)
  have "scenes (snd (snd (build render_passes s))) (CallerScene i) =
      with_sky_boxes (CallerScene i) (sky_boxes (CallerScene i) (fst (snd (build render_passes s))))
        (scenes ?s2 (CallerScene i))"
    unfolding build_world by (rule encode_passes_scene)
  with a show ?thesis
    by (simp add: build_sky_boxes caller_frame_def)
qed

section \<open>What build leaves unchanged\<close>

lemma build_store_frame:
  "width (snd (snd (build render_passes s))) = width s"
  "height (snd (snd (build render_passes s))) = height s"
  "casts_shadows (snd (snd (build render_passes s))) = casts_shadows s"
  "receive_shadow (snd (snd (build render_passes s))) = receive_shadow s"
  "cameras (snd (snd (build render_passes s))) (CallerCamera i) = cameras s (CallerCamera i)"
  "cameras (snd (snd (build render_passes s))) (ShadowCamera l) = cameras s (ShadowCamera l)"
  "grows (scenes s (CallerScene i)) (scenes (snd (snd (build render_passes s))) (CallerScene i))"
proof -
  let ?i = "inject render_passes [] Map.empty s"
  let ?s2 = "snd (add_post_processing_passes (fst (snd ?i) @ fst ?i) [] (snd (snd (snd ?i))))"
  let ?s3 = "snd (snd (build render_passes s))"
  have a: "caller_frame s ?s2" by (rule build_caller_frame_before_encoding)
  have b: "encoder_frame ?s2 ?s3"
    unfolding build_world by (rule encode_passes_frame)
  from a b show "width ?s3 = width s" "height ?s3 = height s"
    "casts_shadows ?s3 = casts_shadows s" "receive_shadow ?s3 = receive_shadow s"
    "cameras ?s3 (CallerCamera i) = cameras s (CallerCamera i)"
    "cameras ?s3 (ShadowCamera l) = cameras s (ShadowCamera l)"
    by (simp_all add: caller_frame_def encoder_frame_def)
  from b have "grows (scenes ?s2 (CallerScene i)) (scenes ?s3 (CallerScene i))"
    by (simp add: encoder_frame_def)
  moreover from a have "scenes ?s2 (CallerScene i) = scenes s (CallerScene i)"
    by (simp add: caller_frame_def)
  ultimately show "grows (scenes s (CallerScene i)) (scenes ?s3 (CallerScene i))"
    by simp
qed

lemma build_scene_unchanged:
  assumes "list_all (keeps_scene (CallerScene i)) render_passes"
  shows "scenes (snd (snd (build render_passes s))) (CallerScene i) = scenes s (CallerScene i)"
proof -
  let ?i = "inject render_passes [] Map.empty s"
  let ?s2 = "snd (add_post_processing_passes (fst (snd ?i) @ fst ?i) [] (snd (snd (snd ?i))))"
  let ?s3 = "snd (snd (build render_passes s))"
  have a: "caller_frame s ?s2" by (rule build_caller_frame_before_encoding)
  have "scenes ?s3 (CallerScene i) = scenes ?s2 (CallerScene i)"
    unfolding build_world using build_keeps[OF assms] by (rule encode_passes_scene_other[unfolded keeps_scene_def[symmetric]])
  with a show ?thesis by (simp add: caller_frame_def)
qed

text \<open>
  C8 (amended). \<open>build\<close> writes to two things that the caller owns. It replaces the caller's
  pass sequence by the final pass list: the pre-process passes, followed by what the expander
  makes of the input passes. And for each input pass that is not depth-only and declares a sky
  box it appends one sky box render graph, and one cube entity that uses it, to the scene of that
  pass, in the order of the passes; a scene to which no such pass refers is left as it was.
  Everything else that it reads it leaves unchanged: the builder's dimensions, the attributes of
  lights and entities, the caller's cameras and the shadow cameras, and the light collections of
  the caller's scenes.
\<close>

theorem build_frame:
  "width (snd (snd (build render_passes s))) = width s
   \<and> height (snd (snd (build render_passes s))) = height s
   \<and> casts_shadows (snd (snd (build render_passes s))) = casts_shadows s
   \<and> receive_shadow (snd (snd (build render_passes s))) = receive_shadow s
   \<and> (\<forall>i. cameras (snd (snd (build render_passes s))) (CallerCamera i) = cameras s (CallerCamera i))
   \<and> (\<forall>l. cameras (snd (snd (build render_passes s))) (ShadowCamera l) = cameras s (ShadowCamera l))
   \<and> (\<forall>i. point_lights (scenes (snd (snd (build render_passes s))) (CallerScene i))
             = point_lights (scenes s (CallerScene i))
          \<and> directional_lights (scenes (snd (snd (build render_passes s))) (CallerScene i))
             = directional_lights (scenes s (CallerScene i))
          \<and> render_graphs (scenes (snd (snd (build render_passes s))) (CallerScene i))
             = render_graphs (scenes s (CallerScene i))
               @ map SkyBoxNode (sky_boxes (CallerScene i) render_passes)
          \<and> entities (scenes (snd (snd (build render_passes s))) (CallerScene i))
             = entities (scenes s (CallerScene i))
               @ map (\<lambda>j. (length (render_graphs (scenes s (CallerScene i))) + j,
                            SingleEntity (CallerScene i)
                              (length (render_graphs (scenes s (CallerScene i))) + j)))
                   [0..<length (sky_boxes (CallerScene i) render_passes)])
   \<and> (\<forall>i. (\<forall>p \<in> set render_passes. scene p = CallerScene i \<longrightarrow> depth_only p \<or> sky_box p = None)
          \<longrightarrow> scenes (snd (snd (build render_passes s))) (CallerScene i) = scenes s (CallerScene i))
   \<and> fst (snd (build render_passes s)) =
       fst (snd (inject render_passes [] Map.empty s))
       @ fst (add_post_processing_passes (fst (inject render_passes [] Map.empty s)) []
                (snd (snd (snd (inject render_passes [] Map.empty s)))))"
proof -
  let ?s3 = "snd (snd (build render_passes s))"
  have g: "point_lights (scenes ?s3 (CallerScene i)) = point_lights (scenes s (CallerScene i))
          \<and> directional_lights (scenes ?s3 (CallerScene i)) = directional_lights (scenes s (CallerScene i))
          \<and> render_graphs (scenes ?s3 (CallerScene i))
             = render_graphs (scenes s (CallerScene i))
               @ map SkyBoxNode (sky_boxes (CallerScene i) render_passes)
          \<and> entities (scenes ?s3 (CallerScene i))
             = entities (scenes s (CallerScene i))
               @ map (\<lambda>j. (length (render_graphs (scenes s (CallerScene i))) + j,
                            SingleEntity (CallerScene i)
                              (length (render_graphs (scenes s (CallerScene i))) + j)))
                   [0..<length (sky_boxes (CallerScene i) render_passes)]"
    for i
    unfolding build_scene by (simp add: with_sky_boxes_def)
  have u: "scenes ?s3 (CallerScene i) = scenes s (CallerScene i)"
    if "\<forall>p \<in> set render_passes. scene p = CallerScene i \<longrightarrow> depth_only p \<or> sky_box p = None" for i
  proof (rule build_scene_unchanged)
    from that show "list_all (keeps_scene (CallerScene i)) render_passes"
      by (auto simp: list_all_iff keeps_scene_def sky_active_def)
  qed
  have G: "\<forall>i. point_lights (scenes ?s3 (CallerScene i)) = point_lights (scenes s (CallerScene i))
          \<and> directional_lights (scenes ?s3 (CallerScene i)) = directional_lights (scenes s (CallerScene i))
          \<and> render_graphs (scenes ?s3 (CallerScene i))
             = render_graphs (scenes s (CallerScene i))
               @ map SkyBoxNode (sky_boxes (CallerScene i) render_passes)
          \<and> entities (scenes ?s3 (CallerScene i))
             = entities (scenes s (CallerScene i))
               @ map (\<lambda>j. (length (render_graphs (scenes s (CallerScene i))) + j,
                            SingleEntity (CallerScene i)
                              (length (render_graphs (scenes s (CallerScene i))) + j)))
                   [0..<length (sky_boxes (CallerScene i) render_passes)]"
    by (intro allI) (rule g)
  have U: "\<forall>i. (\<forall>p \<in> set render_passes. scene p = CallerScene i \<longrightarrow> depth_only p \<or> sky_box p = None)
          \<longrightarrow> scenes ?s3 (CallerScene i) = scenes s (CallerScene i)"
    by (intro allI impI) (rule u)
  have C: "\<forall>i. cameras ?s3 (CallerCamera i) = cameras s (CallerCamera i)"
    "\<forall>l. cameras ?s3 (ShadowCamera l) = cameras s (ShadowCamera l)"
    by (intro allI, rule build_store_frame)+
  show ?thesis
    using build_store_frame(1-4)[of render_passes s] C G U build_final_passes[of render_passes s]
    by - (intro conjI; assumption)
qed

theorem build_frame_witness:
  "sky_box example_pass = None
   \<and> scenes (snd (snd (build [example_pass] example_world))) (CallerScene 0) = example_scene
   \<and> width (snd (snd (build [example_pass] example_world))) = 800
   \<and> cameras (snd (snd (build [example_pass] example_world))) (CallerCamera 0)
       = cameras example_world (CallerCamera 0)
   \<and> point_lights (scenes (snd (snd (build [example_pass] example_world))) (CallerScene 1))
       = [3, 4, 5]
   \<and> render_graphs (scenes (snd (snd (build [sky_pass] example_world))) (CallerScene 0))
       = [CallerGraph 0, CallerGraph 1, SkyBoxNode 1]"
proof -
  have h: "sky_box example_pass = None"
    by (simp add: example_pass_def new_pass_def)
  have w: "width example_world = 800" "scenes example_world (CallerScene 0) = example_scene"
    "point_lights (scenes example_world (CallerScene 1)) = [3, 4, 5]"
    by (simp_all add: example_world_def lit_scene_def)
  have k: "sky_boxes (CallerScene 0) [sky_pass] = [1]"
    by (simp add: sky_boxes_def sky_pass_def example_pass_def new_pass_def)
  note t = build_frame[of "[example_pass]" example_world]
  from t have "(\<forall>p \<in> set [example_pass]. scene p = CallerScene 0 \<longrightarrow> depth_only p \<or> sky_box p = None)
      \<longrightarrow> scenes (snd (snd (build [example_pass] example_world))) (CallerScene 0)
          = scenes example_world (CallerScene 0)"
    by blast
  with h w have c1: "scenes (snd (snd (build [example_pass] example_world))) (CallerScene 0) = example_scene"
    by simp
  from t w have c2: "width (snd (snd (build [example_pass] example_world))) = 800"
    by simp
  from t have c3: "cameras (snd (snd (build [example_pass] example_world))) (CallerCamera 0)
       = cameras example_world (CallerCamera 0)"
    by blast
  from t have "point_lights (scenes (snd (snd (build [example_pass] example_world))) (CallerScene 1))
       = point_lights (scenes example_world (CallerScene 1))"
    by blast
  with w have c4: "point_lights (scenes (snd (snd (build [example_pass] example_world))) (CallerScene 1))
       = [3, 4, 5]"
    by simp
  from build_frame[of "[sky_pass]" example_world]
  have "render_graphs (scenes (snd (snd (build [sky_pass] example_world))) (CallerScene 0))
       = render_graphs (scenes example_world (CallerScene 0))
         @ map SkyBoxNode (sky_boxes (CallerScene 0) [sky_pass])"
    by blast
  with w k have c5: "render_graphs (scenes (snd (snd (build [sky_pass] example_world))) (CallerScene 0))
       = [CallerGraph 0, CallerGraph 1, SkyBoxNode 1]"
    by (simp add: example_scene_def)
  from h c1 c2 c3 c4 c5 show ?thesis by (intro conjI)
qed

text \<open>
  C8 as stated fails: the caller's data does not stay as it was. In the example one pass with
  a sky box goes in; when \<open>build\<close> returns, the caller's pass sequence holds two passes (the
  shadow pass and the input pass) and the caller's scene has a third entity, the sky box cube.
\<close>

theorem build_changes_pass_sequence_and_scene:
  "entities (scenes example_world (scene sky_pass)) = [(0, CallerEntity 0), (1, CallerEntity 1)]
   \<and> length (fst (snd (build [sky_pass] example_world))) = 2
   \<and> entities (scenes (snd (snd (build [sky_pass] example_world))) (scene sky_pass)) =
       [(0, CallerEntity 0), (1, CallerEntity 1), (2, SingleEntity (CallerScene 0) 2)]"
  by (simp add: build_def sky_pass_def example_pass_def example_world_def example_scene_def
      lit_scene_def new_pass_def empty_description_def inject_pass_def
      create_render_target_def add_ambient_occlusion_passes_def expand_pass_def map_back_def
      default_command_def encode_pass_def encode_ambient_def encode_point_def encode_directional_def
      encode_sky_box_def encode_light_pass_commands_def create_material_def empty_scene_def
      create_render_graph_def create_entity_def Let_def)

end
